theory Spec2Isabelle
  imports Complex_Main
begin

section \<open>MultiMinio: a fallback facade over several Minio clients\<close>

text \<open>
  The development embeds \<^verbatim>\<open>src/multiminio/multiminio.py\<close>. The class \<^verbatim>\<open>MultiMinio\<close>
  keeps an ordered tuple of clients, the index of the client it currently serves from, the
  time of the last health check, the cached health statuses and the time at which the
  current run of failures began. Every public method of \<^verbatim>\<open>Minio\<close> is wrapped by
  \<^verbatim>\<open>_execute_with_fallback\<close>.

  Conventions of the embedding:
  \<^item> Timestamps (\<^verbatim>\<open>TS\<close>, a float of seconds) and durations are real numbers.
  \<^item> Python values that the facade only passes through (arguments, results, the payload of
    an exception) have the type variable \<open>'v\<close>; a client handle has the type \<open>'c\<close>.
  \<^item> Everything outside the class is part of an explicit \<open>world\<close>: the clock behind
    \<^verbatim>\<open>ts_type.now()\<close>, the network behind \<^verbatim>\<open>requests.get\<close> and the methods of the
    wrapped clients. Each is a function of the number of calls made so far, which is how
    the mocks of the test-suite script them, and the world logs every call.
  \<^item> A Python exception is a value of type \<open>exn\<close>; a method that can raise returns
    \<open>exn + result\<close> together with the object's state at that moment, since assignments made
    before a raise persist.
  \<^item> The two \<^verbatim>\<open>while\<close> loops need not terminate (a clock that stands still never reaches
    the timeout), so they are partial functions into \<open>option\<close>: \<open>None\<close> is a loop
    that runs forever.
  \<^item> The re-entrant lock is not modelled: one thread runs at a time. The thread pool of
    \<^verbatim>\<open>mtmap\<close> is a sequential map in client order, which is the order of its results.
\<close>

subsection \<open>Data\<close>

text \<open>\<^verbatim>\<open>HealthStatus.status_code : int | Exception\<close>\<close>

datatype 'v status = Code int | Failed 'v

text \<open>\<^verbatim>\<open>class HealthStatus(NamedTuple)\<close>\<close>

record 'v HealthStatus =
  status_code :: "'v status"
  response_time :: "real option"

text \<open>\<^verbatim>\<open>class LoadBalanceType(StrEnum)\<close>\<close>

datatype LoadBalanceType = FALLBACK | ROUND_ROBIN | RANDOM

text \<open>What a wrapper is called with: \<^verbatim>\<open>func.__name__\<close>, \<^verbatim>\<open>args\<close> and \<^verbatim>\<open>kwargs\<close>.\<close>

datatype 'v invocation =
  Invocation (func_name: string) (args: "'v list") (kwargs: "(string \<times> 'v) list")

text \<open>
  The two messages with which the class raises \<^verbatim>\<open>MinioException\<close>, kept as the values
  its format strings interpolate rather than as rendered text:
  \<^verbatim>\<open>"All Minio clients are down for {down_time:.3f} seconds"\<close> and
  \<^verbatim>\<open>"Failed to execute:\n{func.__name__}({args}, {kwargs})\n on all Minio clients within
  {self._max_try_timeout:.3f} seconds"\<close>.
\<close>

datatype 'v message =
  All_down real
| Failed_to_execute "'v invocation" real

datatype 'v exn =
  AssertionError
| IndexError
| S3Error 'v
| InvalidResponseError 'v
| MinioException "'v message"
| BaseException 'v

text \<open>The fields that \<^verbatim>\<open>MultiMinio.__init__\<close> assigns (the lock apart).\<close>

record ('c, 'v) MultiMinio =
  clients :: "'c list"
  load_balance_type :: LoadBalanceType
  fallback_timeout :: real
  health_check_timeout :: real
  health_check_heartbeat :: real
  max_try_timeout :: real
  health_check_min_interval :: real
  current_client_index :: nat
  last_health_check_ts :: real
  current_fail_ts :: "real option"
  health_statuses :: "'v HealthStatus list option"

subsection \<open>The world outside the class\<close>

text \<open>
  \<^verbatim>\<open>requests.get\<close> answers with a status code or raises a \<^verbatim>\<open>RequestException\<close>, the
  only exception that \<^verbatim>\<open>_check_health_status\<close> handles.
\<close>

datatype 'v response = Response int | RequestException 'v

text \<open>
  A method of a wrapped client returns, or raises one of the exception classes that
  \<^verbatim>\<open>_execute_with_fallback\<close> tells apart: \<^verbatim>\<open>S3Error\<close>, \<^verbatim>\<open>InvalidResponseError\<close>,
  any other \<^verbatim>\<open>Exception\<close>, and what is not an \<^verbatim>\<open>Exception\<close> at all
  (\<^verbatim>\<open>KeyboardInterrupt\<close>, \<^verbatim>\<open>SystemExit\<close>).
\<close>

datatype 'v outcome =
  Returns 'v
| Raises_S3Error 'v
| Raises_InvalidResponseError 'v
| Raises_Exception 'v
| Raises_BaseException 'v

record ('c, 'v) world =
  clock :: "nat \<Rightarrow> real"
  ticks :: nat
  network :: "nat \<Rightarrow> 'c \<Rightarrow> 'v response"
  probes :: "('c \<times> real) list"
  methods :: "nat \<Rightarrow> 'c \<Rightarrow> 'v invocation \<Rightarrow> 'v outcome"
  calls :: "'c list"

text \<open>\<^verbatim>\<open>self._ts_type.now()\<close>: the next reading of the clock.\<close>

definition now :: "('c, 'v) world \<Rightarrow> real \<times> ('c, 'v) world" where
  "now w = (clock w (ticks w), w\<lparr>ticks := Suc (ticks w)\<rparr>)"

text \<open>
  \<^verbatim>\<open>requests.get(f"{url}/minio/health/live", timeout=...)\<close>: the world answers and logs
  the client probed and the timeout used.
\<close>

definition requests_get :: "'c \<Rightarrow> real \<Rightarrow> ('c, 'v) world \<Rightarrow> 'v response \<times> ('c, 'v) world" where
  "requests_get c tmo w = (network w (length (probes w)) c, w\<lparr>probes := probes w @ [(c, tmo)]\<rparr>)"

text \<open>\<^verbatim>\<open>getattr(current_client, func.__name__)(*args, **kwargs)\<close>\<close>

definition invoke :: "'c \<Rightarrow> 'v invocation \<Rightarrow> ('c, 'v) world \<Rightarrow> 'v outcome \<times> ('c, 'v) world" where
  "invoke c cmd w = (methods w (length (calls w)) c cmd, w\<lparr>calls := calls w @ [c]\<rparr>)"

subsection \<open>Construction\<close>

text \<open>
  \<^verbatim>\<open>MultiMinio.__init__\<close>, lines 66 to 82. The four \<^verbatim>\<open>assert\<close> statements are checked in
  the order of the source.
\<close>

definition init ::
  "'c list \<Rightarrow> LoadBalanceType \<Rightarrow> real \<Rightarrow> real \<Rightarrow> real \<Rightarrow> real \<Rightarrow> real \<Rightarrow> 'v exn + ('c, 'v) MultiMinio" where
  "init cs lbt fb_timeout hc_timeout hc_heartbeat mt_timeout hc_interval =
     (if \<not> length cs > 0 then Inl AssertionError
      else if \<not> lbt = FALLBACK then Inl AssertionError
      else if \<not> hc_heartbeat \<ge> hc_interval * 2 then Inl AssertionError
      else if \<not> hc_interval \<ge> hc_timeout * 2 then Inl AssertionError
      else Inr \<lparr>clients = cs, load_balance_type = lbt, fallback_timeout = fb_timeout,
                health_check_timeout = hc_timeout, health_check_heartbeat = hc_heartbeat,
                max_try_timeout = mt_timeout, health_check_min_interval = hc_interval,
                current_client_index = 0, last_health_check_ts = 0,
                current_fail_ts = None, health_statuses = None\<rparr>)"

text \<open>The defaults of the keyword arguments.\<close>

definition HEALTH_CHECK_TIMEOUT :: real where "HEALTH_CHECK_TIMEOUT = 5"
definition DEFAULT_FALLBACK_TIMEOUT :: real where "DEFAULT_FALLBACK_TIMEOUT = 60"
definition HEALTH_CHECK_HEARTBEAT :: real where "HEALTH_CHECK_HEARTBEAT = 300"
definition MAX_TRY_TIMEOUT :: real where "MAX_TRY_TIMEOUT = 60"
definition HEALTH_CHECK_INTERVAL :: real where "HEALTH_CHECK_INTERVAL = 10"

subsection \<open>Health checks\<close>

text \<open>
  \<^verbatim>\<open>_check_health_status\<close>, lines 167 to 179: two readings of the clock around one request;
  a response of any status code and a \<^verbatim>\<open>RequestException\<close> both become a
  \<^verbatim>\<open>HealthStatus\<close>.
\<close>

definition check_health_status ::
  "real \<Rightarrow> 'c \<Rightarrow> ('c, 'v) world \<Rightarrow> 'v HealthStatus \<times> ('c, 'v) world" where
  "check_health_status tmo c w =
     (case now w of (t0, w1) \<Rightarrow>
      case requests_get c tmo w1 of (resp, w2) \<Rightarrow>
      case now w2 of (t1, w3) \<Rightarrow>
        (case resp of
           Response code \<Rightarrow> \<lparr>status_code = Code code, response_time = Some (t1 - t0)\<rparr>
         | RequestException e \<Rightarrow> \<lparr>status_code = Failed e, response_time = Some (t1 - t0)\<rparr>,
         w3))"

text \<open>\<^verbatim>\<open>stream(self._clients).mtmap(self._check_health_status, ...)\<close>, results in client order.\<close>

fun mtmap :: "real \<Rightarrow> 'c list \<Rightarrow> ('c, 'v) world \<Rightarrow> 'v HealthStatus list \<times> ('c, 'v) world" where
  "mtmap tmo [] w = ([], w)"
| "mtmap tmo (c # cs) w =
     (case check_health_status tmo c w of (h, w1) \<Rightarrow>
      case mtmap tmo cs w1 of (hs, w2) \<Rightarrow> (h # hs, w2))"

text \<open>
  \<^verbatim>\<open>_retrieve_clients_health\<close>, lines 156 to 165. The \<^verbatim>\<open>assert\<close> of line 159 fails when
  the timestamp is positive and no statuses are stored.
\<close>

definition retrieve_clients_health ::
  "('c, 'v) MultiMinio \<Rightarrow> ('c, 'v) world \<Rightarrow>
     ('v exn + 'v HealthStatus list) \<times> ('c, 'v) MultiMinio \<times> ('c, 'v) world" where
  "retrieve_clients_health s w =
     (case now w of (t, w1) \<Rightarrow>
      let health_status_age = t - last_health_check_ts s in
      if last_health_check_ts s > 0 \<and> health_status_age < health_check_min_interval s then
        (case health_statuses s of
           None \<Rightarrow> (Inl AssertionError, s, w1)
         | Some hs \<Rightarrow> (Inr hs, s, w1))
      else
        (case mtmap (health_check_timeout s) (clients s) w1 of (statuses, w2) \<Rightarrow>
         case now w2 of (t', w3) \<Rightarrow>
           (Inr statuses, s\<lparr>last_health_check_ts := t', health_statuses := Some statuses\<rparr>, w3)))"

subsection \<open>Selecting a client\<close>

text \<open>
  The \<^verbatim>\<open>for i, health_status in enumerate(health_statuses)\<close> scan of lines 146 and 147:
  the index of the first status whose code equals 200, counting from \<open>i\<close>.
\<close>

fun first_healthy_from :: "nat \<Rightarrow> 'v HealthStatus list \<Rightarrow> nat option" where
  "first_healthy_from i [] = None"
| "first_healthy_from i (h # hs) =
     (if status_code h = Code 200 then Some i else first_healthy_from (Suc i) hs)"

definition first_healthy :: "'v HealthStatus list \<Rightarrow> nat option" where
  "first_healthy hs = first_healthy_from 0 hs"

text \<open>\<^verbatim>\<open>self._clients[self._current_client_index]\<close>; Python raises when the index is out of range.\<close>

definition current_client :: "('c, 'v) MultiMinio \<Rightarrow> 'v exn + 'c" where
  "current_client s =
     (if current_client_index s < length (clients s) then Inr (clients s ! current_client_index s)
      else Inl IndexError)"

text \<open>
  The \<^verbatim>\<open>while True\<close> loop of \<^verbatim>\<open>_get_next_client\<close>, lines 144 to 154, for a given
  \<^verbatim>\<open>start_ts\<close>.
\<close>

partial_function (option) get_next_client_loop ::
  "real \<Rightarrow> ('c, 'v) MultiMinio \<Rightarrow> ('c, 'v) world \<Rightarrow>
     (('v exn + 'c) \<times> ('c, 'v) MultiMinio \<times> ('c, 'v) world) option" where
  "get_next_client_loop start_ts s w =
     (case retrieve_clients_health s w of (r, s1, w1) \<Rightarrow>
      case r of
        Inl e \<Rightarrow> Some (Inl e, s1, w1)
      | Inr hs \<Rightarrow>
          (case first_healthy hs of
             Some i \<Rightarrow>
               (let s2 = s1\<lparr>current_client_index := i\<rparr> in Some (current_client s2, s2, w1))
           | None \<Rightarrow>
               (case now w1 of (now_ts, w2) \<Rightarrow>
                let down_time = now_ts - start_ts in
                if down_time > fallback_timeout s1
                then Some (Inl (MinioException (All_down down_time)), s1, w2)
                else get_next_client_loop start_ts s1 w2)))"

text \<open>
  Line 142, \<^verbatim>\<open>start_ts = self._current_fail_ts or self._ts_type.now()\<close>. Python's
  \<^verbatim>\<open>or\<close> takes its right operand when the left one is falsy. That is \<^verbatim>\<open>None\<close>, and
  also the timestamp zero: \<^verbatim>\<open>TS\<close> (of the package \<^verbatim>\<open>tsx\<close>, which is not part of the
  repository) is a subclass of \<^verbatim>\<open>float\<close>, and the float zero is falsy. The clock is read
  only when the right operand is taken.
\<close>

definition start_ts_of :: "('c, 'v) MultiMinio \<Rightarrow> ('c, 'v) world \<Rightarrow> real \<times> ('c, 'v) world" where
  "start_ts_of s w =
     (case current_fail_ts s of
        None \<Rightarrow> now w
      | Some t \<Rightarrow> if t \<noteq> 0 then (t, w) else now w)"

text \<open>\<^verbatim>\<open>_get_next_client\<close>, lines 138 to 154.\<close>

definition get_next_client ::
  "('c, 'v) MultiMinio \<Rightarrow> ('c, 'v) world \<Rightarrow>
     (('v exn + 'c) \<times> ('c, 'v) MultiMinio \<times> ('c, 'v) world) option" where
  "get_next_client s w =
     (case start_ts_of s w of (start_ts, w1) \<Rightarrow> get_next_client_loop start_ts s w1)"

text \<open>\<^verbatim>\<open>_get_current_client\<close>, lines 93 to 99.\<close>

definition get_current_client ::
  "('c, 'v) MultiMinio \<Rightarrow> ('c, 'v) world \<Rightarrow>
     (('v exn + 'c) \<times> ('c, 'v) MultiMinio \<times> ('c, 'v) world) option" where
  "get_current_client s w =
     (case now w of (now_ts, w1) \<Rightarrow>
      let health_check_age = now_ts - last_health_check_ts s in
      if current_client_index s > 0 \<and> health_check_age > health_check_heartbeat s
      then get_next_client s w1
      else Some (current_client s, s, w1))"

subsection \<open>The wrapper\<close>

text \<open>
  Lines 127 to 129: the handler of a failed call records the start of the call as the
  start of the failures, unless one is recorded.
\<close>

definition mark_failure :: "real \<Rightarrow> ('c, 'v) MultiMinio \<Rightarrow> ('c, 'v) MultiMinio" where
  "mark_failure start_try_ts s =
     (if current_fail_ts s = None then s\<lparr>current_fail_ts := Some start_try_ts\<rparr> else s)"

text \<open>
  The \<^verbatim>\<open>while\<close> loop of \<^verbatim>\<open>_execute_with_fallback\<close>, lines 112 to 136, with the
  \<^verbatim>\<open>raise\<close> that follows it. \<^verbatim>\<open>MAX_COMPATIBILITY\<close> is the class constant \<^verbatim>\<open>True\<close>, so
  the method is looked up on the client. An exception raised by \<^verbatim>\<open>_get_next_client\<close>
  inside the handler leaves the loop.
\<close>

partial_function (option) execute_loop ::
  "real \<Rightarrow> 'v invocation \<Rightarrow> 'c \<Rightarrow> ('c, 'v) MultiMinio \<Rightarrow> ('c, 'v) world \<Rightarrow>
     (('v exn + 'v) \<times> ('c, 'v) MultiMinio \<times> ('c, 'v) world) option" where
  "execute_loop start_try_ts cmd current s w =
     (case now w of (t, w1) \<Rightarrow>
      if t - start_try_ts < fallback_timeout s then
        (case invoke current cmd w1 of (out, w2) \<Rightarrow>
         case out of
           Returns result \<Rightarrow> Some (Inr result, s\<lparr>current_fail_ts := None\<rparr>, w2)
         | Raises_S3Error e \<Rightarrow> Some (Inl (S3Error e), s, w2)
         | Raises_InvalidResponseError e \<Rightarrow> Some (Inl (InvalidResponseError e), s, w2)
         | Raises_BaseException e \<Rightarrow> Some (Inl (BaseException e), s, w2)
         | Raises_Exception e \<Rightarrow>
             (case get_next_client (mark_failure start_try_ts s) w2 of
                None \<Rightarrow> None
              | Some (r, s2, w3) \<Rightarrow>
                  (case r of
                     Inl e' \<Rightarrow> Some (Inl e', s2, w3)
                   | Inr next_client \<Rightarrow> execute_loop start_try_ts cmd next_client s2 w3)))
      else Some (Inl (MinioException (Failed_to_execute cmd (max_try_timeout s))), s, w1))"

text \<open>\<^verbatim>\<open>_execute_with_fallback\<close>, lines 101 to 136.\<close>

definition execute_with_fallback ::
  "'v invocation \<Rightarrow> ('c, 'v) MultiMinio \<Rightarrow> ('c, 'v) world \<Rightarrow>
     (('v exn + 'v) \<times> ('c, 'v) MultiMinio \<times> ('c, 'v) world) option" where
  "execute_with_fallback cmd s w =
     (case now w of (start_try_ts, w1) \<Rightarrow>
      (case get_current_client s w1 of
         None \<Rightarrow> None
       | Some (r, s1, w2) \<Rightarrow>
           (case r of
              Inl e \<Rightarrow> Some (Inl e, s1, w2)
            | Inr current \<Rightarrow> execute_loop start_try_ts cmd current s1 w2)))"

text \<open>
  Lines 122 to 125: the exceptions that the wrapper re-raises at once, for an outcome of
  the wrapped method.
\<close>

fun application_error :: "'v outcome \<Rightarrow> 'v exn option" where
  "application_error (Raises_S3Error e) = Some (S3Error e)"
| "application_error (Raises_InvalidResponseError e) = Some (InvalidResponseError e)"
| "application_error _ = None"

subsection \<open>Relations between states\<close>

text \<open>The parameters fixed at construction, which no method assigns.\<close>

definition same_config :: "('c, 'v) MultiMinio \<Rightarrow> ('c, 'v) MultiMinio \<Rightarrow> bool" where
  "same_config s s' \<longleftrightarrow>
     clients s' = clients s \<and> load_balance_type s' = load_balance_type s \<and>
     fallback_timeout s' = fallback_timeout s \<and>
     health_check_timeout s' = health_check_timeout s \<and>
     health_check_heartbeat s' = health_check_heartbeat s \<and>
     max_try_timeout s' = max_try_timeout s \<and>
     health_check_min_interval s' = health_check_min_interval s"

text \<open>The stored statuses, when there are some, are one for each client.\<close>

definition aligned :: "('c, 'v) MultiMinio \<Rightarrow> bool" where
  "aligned s \<longleftrightarrow>
     (case health_statuses s of None \<Rightarrow> True | Some hs \<Rightarrow> length hs = length (clients s))"

text \<open>
  The states that the class reaches: the current index is that of a client, and the stored
  statuses are one for each client or, while there are none, the timestamp of the last
  check is still the zero of construction.
\<close>

definition valid :: "('c, 'v) MultiMinio \<Rightarrow> bool" where
  "valid s \<longleftrightarrow>
     current_client_index s < length (clients s) \<and>
     (case health_statuses s of
        None \<Rightarrow> last_health_check_ts s \<le> 0
      | Some hs \<Rightarrow> length hs = length (clients s))"

subsection \<open>The scenarios of the test-suite\<close>

text \<open>
  \<^verbatim>\<open>tests/test_multiminio.py\<close>: two clients, the first of which fails its first call;
  the first health request fails and the second answers 200. The clock advances by one
  second at each reading.
\<close>

definition minio1 :: string where "minio1 = ''http://minio1.com''"

definition minio2 :: string where "minio2 = ''http://minio2.com''"

definition get_object :: "string invocation" where
  "get_object = Invocation ''get_object'' [''bucket1'', ''path1/object1''] []"

definition test_minio :: "(string, string) MultiMinio" where
  "test_minio =
     \<lparr>clients = [minio1, minio2], load_balance_type = FALLBACK,
      fallback_timeout = DEFAULT_FALLBACK_TIMEOUT, health_check_timeout = HEALTH_CHECK_TIMEOUT,
      health_check_heartbeat = HEALTH_CHECK_HEARTBEAT, max_try_timeout = MAX_TRY_TIMEOUT,
      health_check_min_interval = HEALTH_CHECK_INTERVAL,
      current_client_index = 0, last_health_check_ts = 0,
      current_fail_ts = None, health_statuses = None\<rparr>"

definition test_statuses :: "string HealthStatus list" where
  "test_statuses =
     [\<lparr>status_code = Failed ''timeout'', response_time = Some 1\<rparr>,
      \<lparr>status_code = Code 200, response_time = Some 1\<rparr>]"

definition test_world :: "(string, string) world" where
  "test_world =
     \<lparr>clock = (\<lambda>n. 1000 + real n), ticks = 0,
      network = (\<lambda>n c. if n = 0 then RequestException ''timeout'' else Response 200),
      probes = [],
      methods = (\<lambda>n c cmd.
         if c = minio1
         then (if n = 0 then Raises_Exception ''Client 1 failed initially''
               else Returns ''Client 1 Result'')
         else Returns ''test result''),
      calls = []\<rparr>"

text \<open>
  \<^verbatim>\<open>test_multiminio_both_wrong_IPs_throws_MinioException\<close>: no client can be reached.
  The clock advances by five seconds at each reading.
\<close>

definition down_world :: "(string, string) world" where
  "down_world =
     \<lparr>clock = (\<lambda>n. 2000 + 5 * real n), ticks = 0,
      network = (\<lambda>n c. RequestException ''unreachable''),
      probes = [],
      methods = (\<lambda>n c cmd. Raises_Exception ''connection refused''),
      calls = []\<rparr>"

definition down_statuses :: "string HealthStatus list" where
  "down_statuses =
     [\<lparr>status_code = Failed ''unreachable'', response_time = Some 5\<rparr>,
      \<lparr>status_code = Failed ''unreachable'', response_time = Some 5\<rparr>]"

text \<open>
  The object after the call of the unit test has gone through: it serves from the second
  client.
\<close>

definition degraded_minio :: "(string, string) MultiMinio" where
  "degraded_minio =
     test_minio\<lparr>current_client_index := 1, last_health_check_ts := 1008,
       health_statuses := Some test_statuses\<rparr>"

text \<open>Later on, both clients answer their health requests.\<close>

definition recovered_world :: "(string, string) world" where
  "recovered_world = test_world\<lparr>ticks := 400, network := (\<lambda>n c. Response 200)\<rparr>"

definition healthy_statuses :: "string HealthStatus list" where
  "healthy_statuses =
     [\<lparr>status_code = Code 200, response_time = Some 1\<rparr>,
      \<lparr>status_code = Code 200, response_time = Some 1\<rparr>]"

text \<open>
  The functional tests in which the first client answers with an \<^verbatim>\<open>S3Error\<close>
  (\<^verbatim>\<open>NoSuchKey\<close>) or an \<^verbatim>\<open>InvalidResponseError\<close> (code 400).
\<close>

definition s3_world :: "(string, string) world" where
  "s3_world = test_world\<lparr>methods := (\<lambda>n c cmd. Raises_S3Error ''NoSuchKey'')\<rparr>"

definition invalid_world :: "(string, string) world" where
  "invalid_world = test_world\<lparr>methods := (\<lambda>n c cmd. Raises_InvalidResponseError ''400'')\<rparr>"

text \<open>The unit test again, on a clock that advances by ten seconds at each reading.\<close>

definition slow_world :: "(string, string) world" where
  "slow_world = test_world\<lparr>clock := (\<lambda>n. 1000 + 10 * real n)\<rparr>"

definition slow_statuses :: "string HealthStatus list" where
  "slow_statuses =
     [\<lparr>status_code = Failed ''timeout'', response_time = Some 10\<rparr>,
      \<lparr>status_code = Code 200, response_time = Some 10\<rparr>]"

section \<open>Properties\<close>

subsection \<open>The scan for the first healthy client\<close>

lemma first_healthy_from_None:
  "first_healthy_from k hs = None \<longleftrightarrow> (\<forall>h \<in> set hs. status_code h \<noteq> Code 200)"
  by (induction hs arbitrary: k) auto

lemma first_healthy_from_Some:
  "first_healthy_from k hs = Some i \<Longrightarrow>
     k \<le> i \<and> i - k < length hs \<and> status_code (hs ! (i - k)) = Code 200 \<and>
     (\<forall>j < i - k. status_code (hs ! j) \<noteq> Code 200)"
proof (induction hs arbitrary: k)
  case Nil
  then show ?case by simp
next
  case (Cons h hs)
  show ?case
  proof (cases "status_code h = Code 200")
    case True
    with Cons.prems show ?thesis by simp
  next
    case False
    with Cons.prems have "first_healthy_from (Suc k) hs = Some i" by simp
    from Cons.IH [OF this] have ih: "Suc k \<le> i" "i - Suc k < length hs"
      "status_code (hs ! (i - Suc k)) = Code 200"
      "\<forall>j < i - Suc k. status_code (hs ! j) \<noteq> Code 200" by simp_all
    from ih(1) have eq: "i - k = Suc (i - Suc k)" by simp
    have "\<forall>j < i - k. status_code ((h # hs) ! j) \<noteq> Code 200"
      using False ih(4) unfolding eq by (simp add: nth_Cons split: nat.splits)
    with ih eq show ?thesis by simp
  qed
qed

lemma first_healthy_None:
  "first_healthy hs = None \<longleftrightarrow> (\<forall>h \<in> set hs. status_code h \<noteq> Code 200)"
  by (simp add: first_healthy_def first_healthy_from_None)

lemma first_healthy_Some:
  "first_healthy hs = Some i \<Longrightarrow>
     i < length hs \<and> status_code (hs ! i) = Code 200 \<and>
     (\<forall>j < i. status_code (hs ! j) \<noteq> Code 200)"
  using first_healthy_from_Some [of 0 hs i] by (simp add: first_healthy_def)

lemma first_healthy_least:
  assumes "i < length hs" "status_code (hs ! i) = Code 200"
    "\<forall>j < i. status_code (hs ! j) \<noteq> Code 200"
  shows "first_healthy hs = Some i"
proof (cases "first_healthy hs")
  case None
  with assms(1,2) show ?thesis by (auto simp: first_healthy_None)
next
  case (Some k)
  from first_healthy_Some [OF this] assms show ?thesis
    unfolding Some by (metis linorder_neqE_nat)
qed

subsection \<open>The clock, the probes and health retrieval\<close>

lemma now_eq: "now w = (clock w (ticks w), w\<lparr>ticks := Suc (ticks w)\<rparr>)"
  by (simp add: now_def)

lemma check_health_status_world:
  "snd (check_health_status tmo c w) = w\<lparr>ticks := Suc (Suc (ticks w)), probes := probes w @ [(c, tmo)]\<rparr>"
  by (simp add: check_health_status_def now_def requests_get_def)

lemma mtmap_world:
  "snd (mtmap tmo cs w) =
     w\<lparr>ticks := ticks w + 2 * length cs, probes := probes w @ map (\<lambda>c. (c, tmo)) cs\<rparr>"
proof (induction cs arbitrary: w)
  case Nil
  then show ?case by simp
next
  case (Cons c cs)
  obtain h w1 where h: "check_health_status tmo c w = (h, w1)" by force
  then have w1: "w1 = w\<lparr>ticks := Suc (Suc (ticks w)), probes := probes w @ [(c, tmo)]\<rparr>"
    using check_health_status_world [of tmo c w] by simp
  obtain hs w2 where hs: "mtmap tmo cs w1 = (hs, w2)" by force
  with Cons.IH [of w1] have "w2 = w1\<lparr>ticks := ticks w1 + 2 * length cs, probes := probes w1 @ map (\<lambda>c. (c, tmo)) cs\<rparr>"
    by simp
  with h hs w1 show ?case by simp
qed

lemma mtmap_length: "mtmap tmo cs w = (hs, w') \<Longrightarrow> length hs = length cs"
  by (induction cs arbitrary: w hs w') (auto split: prod.splits)

lemma invoke_world:
  "invoke c cmd w = (out, w') \<Longrightarrow>
     probes w' = probes w \<and> calls w' = calls w @ [c] \<and> clock w' = clock w \<and> ticks w' = ticks w"
  by (auto simp: invoke_def)

text \<open>The two branches of health retrieval.\<close>

lemma retrieve_hit:
  assumes "last_health_check_ts s > 0"
    "fst (now w) - last_health_check_ts s < health_check_min_interval s"
    "health_statuses s = Some hs"
  shows "retrieve_clients_health s w = (Inr hs, s, snd (now w))"
  using assms by (simp add: retrieve_clients_health_def now_eq)

lemma retrieve_miss:
  assumes "\<not> (last_health_check_ts s > 0 \<and>
    fst (now w) - last_health_check_ts s < health_check_min_interval s)"
  shows "\<exists>statuses w'. retrieve_clients_health s w =
      (Inr statuses, s\<lparr>last_health_check_ts := clock w (ticks w + 2 * length (clients s) + 1),
         health_statuses := Some statuses\<rparr>, w') \<and>
      length statuses = length (clients s) \<and>
      w' = w\<lparr>ticks := ticks w + 2 * length (clients s) + 2, probes := probes w @ map (\<lambda>c. (c, health_check_timeout s)) (clients s)\<rparr>"
proof -
  let ?w1 = "snd (now w)"
  obtain statuses w2 where m: "mtmap (health_check_timeout s) (clients s) ?w1 = (statuses, w2)"
    by force
  have w2: "w2 = ?w1\<lparr>ticks := ticks ?w1 + 2 * length (clients s),
      probes := probes ?w1 @ map (\<lambda>c. (c, health_check_timeout s)) (clients s)\<rparr>"
    using mtmap_world [of "health_check_timeout s" "clients s" ?w1] m by simp
  have len: "length statuses = length (clients s)"
    using mtmap_length [OF m] .
  show ?thesis
    using assms m len unfolding w2
    by (auto simp add: retrieve_clients_health_def now_eq)
qed

lemma same_config_refl [simp]: "same_config s s"
  by (simp add: same_config_def)

lemma same_config_trans: "same_config s s1 \<Longrightarrow> same_config s1 s2 \<Longrightarrow> same_config s s2"
  by (simp add: same_config_def)

lemma mark_failure_config [simp]: "same_config s (mark_failure t s)"
  by (simp add: mark_failure_def same_config_def)

lemma retrieve_frame:
  "retrieve_clients_health s w = (r, s', w') \<Longrightarrow>
     same_config s s' \<and> current_client_index s' = current_client_index s \<and>
     current_fail_ts s' = current_fail_ts s"
  by (auto simp: retrieve_clients_health_def same_config_def now_eq Let_def
      split: if_splits option.splits prod.splits)

lemma retrieve_Inr:
  "retrieve_clients_health s w = (Inr hs, s', w') \<Longrightarrow> health_statuses s' = Some hs"
  by (auto simp: retrieve_clients_health_def now_eq Let_def
      split: if_splits option.splits prod.splits)

lemma retrieve_Inl:
  "retrieve_clients_health s w = (Inl e, s', w') \<Longrightarrow> e = AssertionError \<and> s' = s"
  by (auto simp: retrieve_clients_health_def now_eq Let_def
      split: if_splits option.splits prod.splits)

lemma retrieve_aligned:
  "retrieve_clients_health s w = (r, s', w') \<Longrightarrow> aligned s \<Longrightarrow> aligned s'"
  by (auto simp: retrieve_clients_health_def now_eq Let_def aligned_def
      split: if_splits option.splits prod.splits dest: mtmap_length)

lemma retrieve_world:
  "retrieve_clients_health s w = (r, s', w') \<Longrightarrow>
     clock w' = clock w \<and> ticks w < ticks w' \<and> calls w' = calls w \<and>
     methods w' = methods w \<and> network w' = network w"
  using mtmap_world [of "health_check_timeout s" "clients s" "snd (now w)"]
  by (auto simp: retrieve_clients_health_def now_eq Let_def
      split: if_splits option.splits prod.splits)

subsection \<open>The search loop\<close>

text \<open>One turn of the loop, and the four ways in which a turn can end.\<close>

lemma loop_found:
  assumes "retrieve_clients_health s w = (Inr hs, s1, w1)" "first_healthy hs = Some i"
  shows "get_next_client_loop start_ts s w =
     Some (current_client (s1\<lparr>current_client_index := i\<rparr>), s1\<lparr>current_client_index := i\<rparr>, w1)"
  using assms by (subst get_next_client_loop.simps) (simp add: Let_def)

lemma loop_none:
  assumes "retrieve_clients_health s w = (Inr hs, s1, w1)" "first_healthy hs = None"
  shows "get_next_client_loop start_ts s w =
     (if fst (now w1) - start_ts > fallback_timeout s
      then Some (Inl (MinioException (All_down (fst (now w1) - start_ts))), s1, snd (now w1))
      else get_next_client_loop start_ts s1 (snd (now w1)))"
proof -
  from retrieve_frame [OF assms(1)] have "fallback_timeout s1 = fallback_timeout s"
    by (simp add: same_config_def)
  with assms show ?thesis
    by (subst get_next_client_loop.simps) (simp add: Let_def now_eq)
qed

lemma loop_body_cases [consumes 1, case_names Assert Found Down Again]:
  assumes "(case retrieve_clients_health s w of (r, s1, w1) \<Rightarrow>
      case r of
        Inl e \<Rightarrow> Some (Inl e, s1, w1)
      | Inr hs \<Rightarrow>
          (case first_healthy hs of
             Some i \<Rightarrow>
               (let s2 = s1\<lparr>current_client_index := i\<rparr> in Some (current_client s2, s2, w1))
           | None \<Rightarrow>
               (case now w1 of (now_ts, w2) \<Rightarrow>
                let down_time = now_ts - start_ts in
                if down_time > fallback_timeout s1
                then Some (Inl (MinioException (All_down down_time)), s1, w2)
                else f start_ts s1 w2))) = Some y"
  obtains
    (Assert) e s1 w1 where "retrieve_clients_health s w = (Inl e, s1, w1)" "y = (Inl e, s1, w1)"
  | (Found) hs s1 w1 i where "retrieve_clients_health s w = (Inr hs, s1, w1)"
      "first_healthy hs = Some i"
      "y = (current_client (s1\<lparr>current_client_index := i\<rparr>), s1\<lparr>current_client_index := i\<rparr>, w1)"
  | (Down) hs s1 w1 where "retrieve_clients_health s w = (Inr hs, s1, w1)"
      "first_healthy hs = None" "fst (now w1) - start_ts > fallback_timeout s1"
      "y = (Inl (MinioException (All_down (fst (now w1) - start_ts))), s1, snd (now w1))"
  | (Again) hs s1 w1 where "retrieve_clients_health s w = (Inr hs, s1, w1)"
      "first_healthy hs = None" "\<not> fst (now w1) - start_ts > fallback_timeout s1"
      "f start_ts s1 (snd (now w1)) = Some y"
proof -
  obtain r s1 w1 where r: "retrieve_clients_health s w = (r, s1, w1)"
    by (metis prod_cases3)
  show thesis
  proof (cases r)
    case (Inl e)
    with assms r show thesis by (intro Assert [of e s1 w1]) auto
  next
    case (Inr hs)
    show thesis
    proof (cases "first_healthy hs")
      case (Some i)
      with assms r Inr show thesis by (intro Found [of hs s1 w1 i]) (auto simp: Let_def)
    next
      case None
      show thesis
      proof (cases "fst (now w1) - start_ts > fallback_timeout s1")
        case True
        with assms r Inr None show thesis
          by (intro Down [of hs s1 w1]) (auto simp: Let_def now_eq)
      next
        case False
        with assms r Inr None show thesis
          by (intro Again [of hs s1 w1]) (auto simp: Let_def now_eq)
      qed
    qed
  qed
qed

lemmas loop_induct = get_next_client_loop.raw_induct [rotated 1, consumes 1, case_names step]

lemma loop_frame:
  assumes "get_next_client_loop start_ts s w = Some y"
  shows "same_config s (fst (snd y)) \<and> current_fail_ts (fst (snd y)) = current_fail_ts s"
  using assms
proof (induction start_ts s w y rule: loop_induct)
  case (step loop start_ts s w y)
  from step(2) show ?case
  proof (cases rule: loop_body_cases)
    case (Assert e s1 w1)
    with retrieve_frame [OF Assert(1)] show ?thesis by simp
  next
    case (Found hs s1 w1 i)
    with retrieve_frame [OF Found(1)] show ?thesis by (simp add: same_config_def)
  next
    case (Down hs s1 w1)
    with retrieve_frame [OF Down(1)] show ?thesis by simp
  next
    case (Again hs s1 w1)
    from step(1) [OF Again(4)] retrieve_frame [OF Again(1)] show ?thesis
      by (auto intro: same_config_trans)
  qed
qed

lemma loop_world:
  assumes "get_next_client_loop start_ts s w = Some y"
  shows "clock (snd (snd y)) = clock w \<and> ticks w < ticks (snd (snd y)) \<and>
    calls (snd (snd y)) = calls w \<and> methods (snd (snd y)) = methods w \<and>
    network (snd (snd y)) = network w"
  using assms
proof (induction start_ts s w y rule: loop_induct)
  case (step loop start_ts s w y)
  from step(2) show ?case
  proof (cases rule: loop_body_cases)
    case (Assert e s1 w1)
    with retrieve_world [OF Assert(1)] show ?thesis by simp
  next
    case (Found hs s1 w1 i)
    with retrieve_world [OF Found(1)] show ?thesis by simp
  next
    case (Down hs s1 w1)
    with retrieve_world [OF Down(1)] show ?thesis by (simp add: now_eq)
  next
    case (Again hs s1 w1)
    from step(1) [OF Again(4)] retrieve_world [OF Again(1)] show ?thesis
      by (simp add: now_eq)
  qed
qed

lemma loop_aligned:
  assumes "get_next_client_loop start_ts s w = Some y" "aligned s"
  shows "aligned (fst (snd y))"
  using assms
proof (induction start_ts s w y rule: loop_induct)
  case (step loop start_ts s w y)
  from step(2) show ?case
  proof (cases rule: loop_body_cases)
    case (Assert e s1 w1)
    with retrieve_aligned [OF Assert(1) step(3)] show ?thesis by simp
  next
    case (Found hs s1 w1 i)
    with retrieve_aligned [OF Found(1) step(3)] show ?thesis
      by (simp add: aligned_def split: option.splits)
  next
    case (Down hs s1 w1)
    with retrieve_aligned [OF Down(1) step(3)] show ?thesis by simp
  next
    case (Again hs s1 w1)
    from step(1) [OF Again(4)] retrieve_aligned [OF Again(1) step(3)] show ?thesis
      by simp
  qed
qed

text \<open>A client that the search returns is healthy in the statuses that the object holds.\<close>

lemma loop_healthy:
  assumes "get_next_client_loop start_ts s w = Some y" "fst y = Inr c"
  shows "\<exists>hs. health_statuses (fst (snd y)) = Some hs \<and>
     current_client_index (fst (snd y)) < length hs \<and>
     status_code (hs ! current_client_index (fst (snd y))) = Code 200 \<and>
     current_client_index (fst (snd y)) < length (clients (fst (snd y))) \<and>
     c = clients (fst (snd y)) ! current_client_index (fst (snd y))"
  using assms
proof (induction start_ts s w y rule: loop_induct)
  case (step loop start_ts s w y)
  from step(2) show ?case
  proof (cases rule: loop_body_cases)
    case (Assert e s1 w1)
    with step(3) show ?thesis by simp
  next
    case (Found hs s1 w1 i)
    from first_healthy_Some [OF Found(2)] retrieve_Inr [OF Found(1)] Found(3) step(3)
    show ?thesis by (auto simp: current_client_def split: if_splits)
  next
    case (Down hs s1 w1)
    with step(3) show ?thesis by simp
  next
    case (Again hs s1 w1)
    from step(1) [OF Again(4) step(3)] show ?thesis .
  qed
qed

text \<open>What holds when the search gives up.\<close>

lemma loop_all_down:
  assumes "get_next_client_loop start_ts s w = Some y"
    "fst y = Inl (MinioException (All_down d))"
  shows "d > fallback_timeout s \<and> d = clock w (ticks (snd (snd y)) - 1) - start_ts \<and>
     current_client_index (fst (snd y)) = current_client_index s \<and>
     (\<exists>hs. health_statuses (fst (snd y)) = Some hs \<and> (\<forall>h \<in> set hs. status_code h \<noteq> Code 200))"
  using assms
proof (induction start_ts s w y rule: loop_induct)
  case (step loop start_ts s w y)
  from step(2) show ?case
  proof (cases rule: loop_body_cases)
    case (Assert e s1 w1)
    with retrieve_Inl [OF Assert(1)] step(3) show ?thesis by simp
  next
    case (Found hs s1 w1 i)
    with step(3) show ?thesis by (simp add: current_client_def split: if_splits)
  next
    case (Down hs s1 w1)
    with step(3) retrieve_frame [OF Down(1)] retrieve_world [OF Down(1)]
      retrieve_Inr [OF Down(1)] show ?thesis
      by (auto simp: now_eq same_config_def first_healthy_None)
  next
    case (Again hs s1 w1)
    from step(1) [OF Again(4) step(3)] retrieve_frame [OF Again(1)] retrieve_world [OF Again(1)]
    show ?thesis by (auto simp: now_eq same_config_def)
  qed
qed

text \<open>The search changes the index only to that of a healthy client.\<close>

lemma loop_index:
  assumes "get_next_client_loop start_ts s w = Some y"
  shows "current_client_index (fst (snd y)) = current_client_index s \<or>
     (\<exists>hs. health_statuses (fst (snd y)) = Some hs \<and>
        current_client_index (fst (snd y)) < length hs \<and>
        status_code (hs ! current_client_index (fst (snd y))) = Code 200)"
  using assms
proof (induction start_ts s w y rule: loop_induct)
  case (step loop start_ts s w y)
  from step(2) show ?case
  proof (cases rule: loop_body_cases)
    case (Assert e s1 w1)
    with retrieve_frame [OF Assert(1)] show ?thesis by simp
  next
    case (Found hs s1 w1 i)
    from first_healthy_Some [OF Found(2)] retrieve_Inr [OF Found(1)] Found(3)
    show ?thesis by simp
  next
    case (Down hs s1 w1)
    with retrieve_frame [OF Down(1)] show ?thesis by simp
  next
    case (Again hs s1 w1)
    from step(1) [OF Again(4)] retrieve_frame [OF Again(1)] show ?thesis by auto
  qed
qed

lemma loop_errors:
  assumes "get_next_client_loop start_ts s w = Some y" "fst y = Inl e"
  shows "e = AssertionError \<or> e = IndexError \<or> (\<exists>d. e = MinioException (All_down d))"
  using assms
proof (induction start_ts s w y rule: loop_induct)
  case (step loop start_ts s w y)
  from step(2) show ?case
  proof (cases rule: loop_body_cases)
    case (Assert e' s1 w1)
    with retrieve_Inl [OF Assert(1)] step(3) show ?thesis by simp
  next
    case (Found hs s1 w1 i)
    with step(3) show ?thesis by (simp add: current_client_def split: if_splits)
  next
    case (Down hs s1 w1)
    with step(3) show ?thesis by auto
  next
    case (Again hs s1 w1)
    from step(1) [OF Again(4) step(3)] show ?thesis .
  qed
qed

lemma start_ts_of_world:
  "start_ts_of s w = (start_ts, w0) \<Longrightarrow>
     clock w0 = clock w \<and> ticks w \<le> ticks w0 \<and> calls w0 = calls w \<and> probes w0 = probes w \<and>
     methods w0 = methods w \<and> network w0 = network w"
  by (auto simp: start_ts_of_def now_eq split: option.splits if_splits)

lemma get_next_client_frame:
  assumes "get_next_client s w = Some (r, s', w')"
  shows "same_config s s'" "current_fail_ts s' = current_fail_ts s"
    "clock w' = clock w" "calls w' = calls w" "ticks w < ticks w'"
    "methods w' = methods w" "network w' = network w"
proof -
  obtain start_ts w0 where st: "start_ts_of s w = (start_ts, w0)" by force
  with assms have l: "get_next_client_loop start_ts s w0 = Some (r, s', w')"
    by (simp add: get_next_client_def)
  from loop_frame [OF l] show "same_config s s'" "current_fail_ts s' = current_fail_ts s"
    by simp_all
  from loop_world [OF l] start_ts_of_world [OF st]
  show "clock w' = clock w" "calls w' = calls w" "ticks w < ticks w'"
    "methods w' = methods w" "network w' = network w"
    by simp_all
qed

lemma get_next_client_aligned:
  assumes "get_next_client s w = Some (r, s', w')" "aligned s"
  shows "aligned s'"
proof -
  obtain start_ts w0 where st: "start_ts_of s w = (start_ts, w0)" by force
  with assms have l: "get_next_client_loop start_ts s w0 = Some (r, s', w')"
    by (simp add: get_next_client_def)
  from loop_aligned [OF l assms(2)] show ?thesis by simp
qed

lemma get_next_client_errors:
  assumes "get_next_client s w = Some (Inl e, s', w')"
  shows "e = AssertionError \<or> e = IndexError \<or> (\<exists>d. e = MinioException (All_down d))"
proof -
  obtain start_ts w0 where st: "start_ts_of s w = (start_ts, w0)" by force
  with assms have l: "get_next_client_loop start_ts s w0 = Some (Inl e, s', w')"
    by (simp add: get_next_client_def)
  from loop_errors [OF l, of e] show ?thesis by simp
qed

lemma get_current_client_cases:
  assumes "get_current_client s w = Some (r, s', w')"
  shows "(r = current_client s \<and> s' = s \<and> w' = snd (now w)) \<or>
     get_next_client s (snd (now w)) = Some (r, s', w')"
  using assms by (auto simp: get_current_client_def now_eq Let_def split: if_splits)

lemma get_current_client_frame:
  assumes "get_current_client s w = Some (r, s', w')"
  shows "same_config s s'" "current_fail_ts s' = current_fail_ts s"
    "clock w' = clock w" "calls w' = calls w" "ticks w < ticks w'"
  using get_current_client_cases [OF assms] get_next_client_frame [of s "snd (now w)" r s' w']
  by (auto simp: now_eq)

lemma get_current_client_errors:
  assumes "get_current_client s w = Some (Inl e, s', w')"
  shows "e = AssertionError \<or> e = IndexError \<or> (\<exists>d. e = MinioException (All_down d))"
  using get_current_client_cases [OF assms] get_next_client_errors [of s "snd (now w)" e s' w']
  by (auto simp: current_client_def split: if_splits)

subsection \<open>The retry loop\<close>

lemma exec_exit:
  assumes "\<not> fst (now w) - start_try_ts < fallback_timeout s"
  shows "execute_loop start_try_ts cmd c s w =
     Some (Inl (MinioException (Failed_to_execute cmd (max_try_timeout s))), s, snd (now w))"
  using assms by (subst execute_loop.simps) (simp add: now_eq)

lemma exec_returns:
  assumes "fst (now w) - start_try_ts < fallback_timeout s"
    "invoke c cmd (snd (now w)) = (Returns result, w2)"
  shows "execute_loop start_try_ts cmd c s w = Some (Inr result, s\<lparr>current_fail_ts := None\<rparr>, w2)"
  using assms by (subst execute_loop.simps) (simp add: now_eq)

lemma exec_s3_error:
  assumes "fst (now w) - start_try_ts < fallback_timeout s"
    "invoke c cmd (snd (now w)) = (Raises_S3Error e, w2)"
  shows "execute_loop start_try_ts cmd c s w = Some (Inl (S3Error e), s, w2)"
  using assms by (subst execute_loop.simps) (simp add: now_eq)

lemma exec_invalid_response:
  assumes "fst (now w) - start_try_ts < fallback_timeout s"
    "invoke c cmd (snd (now w)) = (Raises_InvalidResponseError e, w2)"
  shows "execute_loop start_try_ts cmd c s w = Some (Inl (InvalidResponseError e), s, w2)"
  using assms by (subst execute_loop.simps) (simp add: now_eq)

lemma exec_application_error:
  assumes "fst (now w) - start_try_ts < fallback_timeout s"
    "invoke c cmd (snd (now w)) = (out, w2)" "application_error out = Some err"
  shows "execute_loop start_try_ts cmd c s w = Some (Inl err, s, w2)"
proof (cases out)
  case (Raises_S3Error e)
  with assms exec_s3_error [of w start_try_ts s c cmd e w2] show ?thesis by simp
next
  case (Raises_InvalidResponseError e)
  with assms exec_invalid_response [of w start_try_ts s c cmd e w2] show ?thesis by simp
qed (use assms(3) in simp_all)

lemma exec_fallback:
  assumes "fst (now w) - start_try_ts < fallback_timeout s"
    "invoke c cmd (snd (now w)) = (Raises_Exception e, w2)"
    "get_next_client (mark_failure start_try_ts s) w2 = Some (Inr c', s2, w3)"
  shows "execute_loop start_try_ts cmd c s w = execute_loop start_try_ts cmd c' s2 w3"
  using assms by (subst execute_loop.simps) (simp add: now_eq)

lemma exec_handler:
  assumes "fst (now w) - start_try_ts < fallback_timeout s"
    "invoke c cmd (snd (now w)) = (Raises_Exception e, w2)"
  shows "execute_loop start_try_ts cmd c s w =
     (case get_next_client (mark_failure start_try_ts s) w2 of
        None \<Rightarrow> None
      | Some (r, s2, w3) \<Rightarrow>
          (case r of
             Inl e' \<Rightarrow> Some (Inl e', s2, w3)
           | Inr next_client \<Rightarrow> execute_loop start_try_ts cmd next_client s2 w3))"
  using assms by (subst execute_loop.simps) (simp add: now_eq)

lemmas exec_induct = execute_loop.raw_induct [rotated 1, consumes 1, case_names step]

lemma exec_body_cases [consumes 1, case_names Exit Return S3 Invalid Base Search_raises Retry]:
  assumes "(case now w of (t, w1) \<Rightarrow>
      if t - start_try_ts < fallback_timeout s then
        (case invoke current cmd w1 of (out, w2) \<Rightarrow>
         case out of
           Returns result \<Rightarrow> Some (Inr result, s\<lparr>current_fail_ts := None\<rparr>, w2)
         | Raises_S3Error e \<Rightarrow> Some (Inl (S3Error e), s, w2)
         | Raises_InvalidResponseError e \<Rightarrow> Some (Inl (InvalidResponseError e), s, w2)
         | Raises_BaseException e \<Rightarrow> Some (Inl (BaseException e), s, w2)
         | Raises_Exception e \<Rightarrow>
             (case get_next_client (mark_failure start_try_ts s) w2 of
                None \<Rightarrow> None
              | Some (r, s2, w3) \<Rightarrow>
                  (case r of
                     Inl e' \<Rightarrow> Some (Inl e', s2, w3)
                   | Inr next_client \<Rightarrow> f start_try_ts cmd next_client s2 w3)))
      else Some (Inl (MinioException (Failed_to_execute cmd (max_try_timeout s))), s, w1)) = Some y"
  obtains
    (Exit) "\<not> fst (now w) - start_try_ts < fallback_timeout s"
      "y = (Inl (MinioException (Failed_to_execute cmd (max_try_timeout s))), s, snd (now w))"
  | (Return) result w2 where "fst (now w) - start_try_ts < fallback_timeout s"
      "invoke current cmd (snd (now w)) = (Returns result, w2)"
      "y = (Inr result, s\<lparr>current_fail_ts := None\<rparr>, w2)"
  | (S3) e w2 where "fst (now w) - start_try_ts < fallback_timeout s"
      "invoke current cmd (snd (now w)) = (Raises_S3Error e, w2)"
      "y = (Inl (S3Error e), s, w2)"
  | (Invalid) e w2 where "fst (now w) - start_try_ts < fallback_timeout s"
      "invoke current cmd (snd (now w)) = (Raises_InvalidResponseError e, w2)"
      "y = (Inl (InvalidResponseError e), s, w2)"
  | (Base) e w2 where "fst (now w) - start_try_ts < fallback_timeout s"
      "invoke current cmd (snd (now w)) = (Raises_BaseException e, w2)"
      "y = (Inl (BaseException e), s, w2)"
  | (Search_raises) e w2 e' s2 w3 where "fst (now w) - start_try_ts < fallback_timeout s"
      "invoke current cmd (snd (now w)) = (Raises_Exception e, w2)"
      "get_next_client (mark_failure start_try_ts s) w2 = Some (Inl e', s2, w3)"
      "y = (Inl e', s2, w3)"
  | (Retry) e w2 next_client s2 w3 where "fst (now w) - start_try_ts < fallback_timeout s"
      "invoke current cmd (snd (now w)) = (Raises_Exception e, w2)"
      "get_next_client (mark_failure start_try_ts s) w2 = Some (Inr next_client, s2, w3)"
      "f start_try_ts cmd next_client s2 w3 = Some y"
proof (cases "fst (now w) - start_try_ts < fallback_timeout s")
  case False
  with assms show thesis by (intro Exit) (auto simp: now_eq)
next
  case True
  obtain out w2 where inv: "invoke current cmd (snd (now w)) = (out, w2)" by force
  show thesis
  proof (cases out)
    case (Returns result)
    with assms True inv show thesis by (intro Return [of result w2]) (auto simp: now_eq)
  next
    case (Raises_S3Error e)
    with assms True inv show thesis by (intro S3 [of e w2]) (auto simp: now_eq)
  next
    case (Raises_InvalidResponseError e)
    with assms True inv show thesis by (intro Invalid [of e w2]) (auto simp: now_eq)
  next
    case (Raises_BaseException e)
    with assms True inv show thesis by (intro Base [of e w2]) (auto simp: now_eq)
  next
    case (Raises_Exception e)
    with assms True inv have b: "(case get_next_client (mark_failure start_try_ts s) w2 of
                None \<Rightarrow> None
              | Some (r, s2, w3) \<Rightarrow>
                  (case r of
                     Inl e' \<Rightarrow> Some (Inl e', s2, w3)
                   | Inr next_client \<Rightarrow> f start_try_ts cmd next_client s2 w3)) = Some y"
      by (auto simp: now_eq)
    then obtain r s2 w3 where g: "get_next_client (mark_failure start_try_ts s) w2 = Some (r, s2, w3)"
      by (cases "get_next_client (mark_failure start_try_ts s) w2") auto
    show thesis
    proof (cases r)
      case (Inl e')
      with b g True inv Raises_Exception show thesis
        by (intro Search_raises [of e w2 e' s2 w3]) auto
    next
      case (Inr next_client)
      with b g True inv Raises_Exception show thesis
        by (intro Retry [of e w2 next_client s2 w3]) auto
    qed
  qed
qed

lemma exec_config:
  assumes "execute_loop start_try_ts cmd c s w = Some y"
  shows "same_config s (fst (snd y))"
  using assms
proof (induction start_try_ts cmd c s w y rule: exec_induct)
  case (step loop start_try_ts cmd c s w y)
  from step(2) show ?case
  proof (cases rule: exec_body_cases)
    case (Search_raises e w2 e' s2 w3)
    from get_next_client_frame(1) [OF Search_raises(3)] Search_raises(4)
    show ?thesis using same_config_trans [OF mark_failure_config] by auto
  next
    case (Retry e w2 next_client s2 w3)
    from get_next_client_frame(1) [OF Retry(3)] step(1) [OF Retry(4)]
    show ?thesis using same_config_trans [OF mark_failure_config] same_config_trans by blast
  qed (simp_all add: same_config_def)
qed

lemma exec_failed_message:
  assumes "execute_loop start_try_ts cmd c s w = Some y"
    "fst y = Inl (MinioException (Failed_to_execute cmd' x))"
  shows "cmd' = cmd \<and> x = max_try_timeout s \<and>
     \<not> clock w (ticks (snd (snd y)) - 1) - start_try_ts < fallback_timeout s"
  using assms
proof (induction start_try_ts cmd c s w y rule: exec_induct)
  case (step loop start_try_ts cmd c s w y)
  from step(2) show ?case
  proof (cases rule: exec_body_cases)
    case Exit
    with step(3) show ?thesis by (simp add: now_eq)
  next
    case (Search_raises e w2 e' s2 w3)
    with get_next_client_errors [OF Search_raises(3)] step(3) show ?thesis by auto
  next
    case (Retry e w2 next_client s2 w3)
    from get_next_client_frame [OF Retry(3)] step(1) [OF Retry(4) step(3)] Retry(2)
    show ?thesis by (auto simp: same_config_def mark_failure_def invoke_def now_eq split: if_splits)
  qed (use step(3) in simp_all)
qed

subsection \<open>Reachable states\<close>

lemma valid_aligned: "valid s \<Longrightarrow> aligned s"
  by (simp add: valid_def aligned_def split: option.splits)

lemma init_valid:
  "init cs lbt fb hc hb mt mi = Inr s \<Longrightarrow> valid s"
  by (auto simp: init_def valid_def split: if_splits)

lemma retrieve_valid:
  assumes "valid s" "retrieve_clients_health s w = (r, s', w')"
  shows "valid s' \<and> (\<exists>hs. r = Inr hs)"
proof (cases "last_health_check_ts s > 0 \<and>
    fst (now w) - last_health_check_ts s < health_check_min_interval s")
  case True
  with assms(1) obtain hs where "health_statuses s = Some hs"
    by (auto simp: valid_def split: option.splits)
  with True assms retrieve_hit [of s w hs] show ?thesis by auto
next
  case False
  from retrieve_miss [OF False] assms show ?thesis
    by (auto simp: valid_def)
qed

lemma loop_valid:
  assumes "get_next_client_loop start_ts s w = Some y" "valid s"
  shows "valid (fst (snd y)) \<and> fst y \<noteq> Inl AssertionError \<and> fst y \<noteq> Inl IndexError"
  using assms
proof (induction start_ts s w y rule: loop_induct)
  case (step loop start_ts s w y)
  from step(2) show ?case
  proof (cases rule: loop_body_cases)
    case (Assert e s1 w1)
    with retrieve_valid [OF step(3) Assert(1)] show ?thesis by simp
  next
    case (Found hs s1 w1 i)
    from retrieve_valid [OF step(3) Found(1)] retrieve_Inr [OF Found(1)]
      first_healthy_Some [OF Found(2)] Found(3)
    show ?thesis by (simp add: valid_def current_client_def)
  next
    case (Down hs s1 w1)
    with retrieve_valid [OF step(3) Down(1)] show ?thesis by simp
  next
    case (Again hs s1 w1)
    from retrieve_valid [OF step(3) Again(1)] have "valid s1" by simp
    from step(1) [OF Again(4) this] show ?thesis .
  qed
qed

lemma get_next_client_valid:
  assumes "get_next_client s w = Some (r, s', w')" "valid s"
  shows "valid s'" "r \<noteq> Inl AssertionError" "r \<noteq> Inl IndexError"
proof -
  obtain start_ts w0 where st: "start_ts_of s w = (start_ts, w0)" by force
  with assms have l: "get_next_client_loop start_ts s w0 = Some (r, s', w')"
    by (simp add: get_next_client_def)
  from loop_valid [OF l assms(2)]
  show "valid s'" "r \<noteq> Inl AssertionError" "r \<noteq> Inl IndexError" by simp_all
qed

lemma get_current_client_valid:
  assumes "get_current_client s w = Some (r, s', w')" "valid s"
  shows "valid s'" "r \<noteq> Inl AssertionError" "r \<noteq> Inl IndexError"
  using get_current_client_cases [OF assms(1)] assms(2)
    get_next_client_valid [of s "snd (now w)" r s' w']
  by (auto simp: current_client_def valid_def)

lemma mark_failure_valid: "valid s \<Longrightarrow> valid (mark_failure t s)"
  by (simp add: mark_failure_def valid_def split: option.splits)

lemma exec_valid:
  assumes "execute_loop start_try_ts cmd c s w = Some y" "valid s"
  shows "valid (fst (snd y)) \<and> fst y \<noteq> Inl AssertionError \<and> fst y \<noteq> Inl IndexError"
  using assms
proof (induction start_try_ts cmd c s w y rule: exec_induct)
  case (step loop start_try_ts cmd c s w y)
  from step(2) show ?case
  proof (cases rule: exec_body_cases)
    case (Search_raises e w2 e' s2 w3)
    with get_next_client_valid [OF Search_raises(3) mark_failure_valid [OF step(3)]]
    show ?thesis by simp
  next
    case (Retry e w2 next_client s2 w3)
    from get_next_client_valid(1) [OF Retry(3) mark_failure_valid [OF step(3)]]
    have "valid s2" .
    from step(1) [OF Retry(4) this] show ?thesis .
  qed (use step(3) in \<open>simp_all add: valid_def split: option.splits\<close>)
qed

text \<open>
  Every state that the class reaches is valid: construction yields a valid state and a
  wrapped call keeps it valid. In such states neither the assertion of line 159 nor an
  index error can occur.
\<close>

lemma execute_with_fallback_valid:
  assumes "execute_with_fallback cmd s w = Some (r, s', w')" "valid s"
  shows "valid s' \<and> r \<noteq> Inl AssertionError \<and> r \<noteq> Inl IndexError"
proof -
  from assms(1) obtain r1 s1 w2 where
    g: "get_current_client s (snd (now w)) = Some (r1, s1, w2)"
    by (cases "get_current_client s (snd (now w))") (auto simp: execute_with_fallback_def now_eq)
  note v = get_current_client_valid [OF g assms(2)]
  show ?thesis
  proof (cases r1)
    case (Inl e)
    with assms(1) g v show ?thesis by (auto simp: execute_with_fallback_def now_eq)
  next
    case (Inr current)
    with assms(1) g have "execute_loop (fst (now w)) cmd current s1 w2 = Some (r, s', w')"
      by (simp add: execute_with_fallback_def now_eq)
    from exec_valid [OF this v(1)] show ?thesis by simp
  qed
qed

subsection \<open>The scenarios evaluated\<close>

lemmas defaults = HEALTH_CHECK_TIMEOUT_def DEFAULT_FALLBACK_TIMEOUT_def HEALTH_CHECK_HEARTBEAT_def
  MAX_TRY_TIMEOUT_def HEALTH_CHECK_INTERVAL_def

lemma test_minio_fields [simp]:
  "clients test_minio = [minio1, minio2]" "fallback_timeout test_minio = 60"
  "health_check_timeout test_minio = 5" "health_check_heartbeat test_minio = 300"
  "max_try_timeout test_minio = 60" "health_check_min_interval test_minio = 10"
  "current_client_index test_minio = 0" "last_health_check_ts test_minio = 0"
  "current_fail_ts test_minio = None" "health_statuses test_minio = None"
  by (simp_all add: test_minio_def defaults)

lemma test_world_fields [simp]:
  "clock test_world = (\<lambda>n. 1000 + real n)" "ticks test_world = 0"
  "network test_world = (\<lambda>n c. if n = 0 then RequestException ''timeout'' else Response 200)"
  "probes test_world = []" "calls test_world = []"
  "methods test_world = (\<lambda>n c cmd.
         if c = minio1
         then (if n = 0 then Raises_Exception ''Client 1 failed initially''
               else Returns ''Client 1 Result'')
         else Returns ''test result'')"
  by (simp_all add: test_world_def)

lemma down_world_fields [simp]:
  "clock down_world = (\<lambda>n. 2000 + 5 * real n)" "ticks down_world = 0"
  "network down_world = (\<lambda>n c. RequestException ''unreachable'')"
  "probes down_world = []" "calls down_world = []"
  "methods down_world = (\<lambda>n c cmd. Raises_Exception ''connection refused'')"
  by (simp_all add: down_world_def)

lemma minio_neq [simp]: "minio1 \<noteq> minio2" "minio2 \<noteq> minio1"
  by (simp_all add: minio1_def minio2_def)

lemmas eval_defs = get_next_client_def start_ts_of_def retrieve_clients_health_def now_def
  check_health_status_def requests_get_def first_healthy_def current_client_def

lemma degraded_minio_fields [simp]:
  "clients degraded_minio = [minio1, minio2]" "fallback_timeout degraded_minio = 60"
  "health_check_timeout degraded_minio = 5" "health_check_heartbeat degraded_minio = 300"
  "max_try_timeout degraded_minio = 60" "health_check_min_interval degraded_minio = 10"
  "current_client_index degraded_minio = 1" "last_health_check_ts degraded_minio = 1008"
  "current_fail_ts degraded_minio = None" "health_statuses degraded_minio = Some test_statuses"
  by (simp_all add: degraded_minio_def)

lemma recovered_world_fields [simp]:
  "clock recovered_world = (\<lambda>n. 1000 + real n)" "ticks recovered_world = 400"
  "network recovered_world = (\<lambda>n c. Response 200)"
  "probes recovered_world = []" "calls recovered_world = []"
  by (simp_all add: recovered_world_def)

text \<open>Updates of a world, put in the order of its fields.\<close>

lemma world_update_order [simp]:
  "w\<lparr>probes := p, ticks := t\<rparr> = w\<lparr>ticks := t, probes := p\<rparr>"
  "w\<lparr>calls := c, ticks := t\<rparr> = w\<lparr>ticks := t, calls := c\<rparr>"
  "w\<lparr>calls := c, probes := p\<rparr> = w\<lparr>probes := p, calls := c\<rparr>"
  by simp_all

lemma s3_world_fields [simp]:
  "clock s3_world = (\<lambda>n. 1000 + real n)" "ticks s3_world = 0"
  "probes s3_world = []" "calls s3_world = []"
  "methods s3_world = (\<lambda>n c cmd. Raises_S3Error ''NoSuchKey'')"
  by (simp_all add: s3_world_def)

lemma invalid_world_fields [simp]:
  "clock invalid_world = (\<lambda>n. 1000 + real n)" "ticks invalid_world = 0"
  "probes invalid_world = []" "calls invalid_world = []"
  "methods invalid_world = (\<lambda>n c cmd. Raises_InvalidResponseError ''400'')"
  by (simp_all add: invalid_world_def)

lemma slow_world_fields [simp]:
  "clock slow_world = (\<lambda>n. 1000 + 10 * real n)" "ticks slow_world = 0"
  "network slow_world = (\<lambda>n c. if n = 0 then RequestException ''timeout'' else Response 200)"
  "probes slow_world = []" "calls slow_world = []"
  "methods slow_world = (\<lambda>n c cmd.
         if c = minio1
         then (if n = 0 then Raises_Exception ''Client 1 failed initially''
               else Returns ''Client 1 Result'')
         else Returns ''test result'')"
  by (simp_all add: slow_world_def)

subsection \<open>Claims about construction\<close>

text \<open>
  Claim C7. Construction fails with an assertion error exactly when the clients are
  empty, or the mode is not \<open>FALLBACK\<close>, or the heartbeat is below twice the minimum
  interval, or the minimum interval is below twice the probe timeout. When none of the four
  holds, construction succeeds, the current client index is 0 and no start of failures is
  recorded.
\<close>

theorem init_asserts:
  "((init cs lbt fb hc hb mt mi :: 'v exn + ('c, 'v) MultiMinio) = Inl AssertionError \<longleftrightarrow>
      (cs = [] \<or> lbt \<noteq> FALLBACK \<or> hb < 2 * mi \<or> mi < 2 * hc)) \<and>
   (\<not> (cs = [] \<or> lbt \<noteq> FALLBACK \<or> hb < 2 * mi \<or> mi < 2 * hc) \<longrightarrow>
      (\<exists>s. init cs lbt fb hc hb mt mi = Inr s \<and> clients s = cs \<and>
           current_client_index s = 0 \<and> current_fail_ts s = None))"
  by (auto simp: init_def)

theorem init_asserts_witness:
  "init [''a'', ''b''] FALLBACK 60 5 300 60 10 \<noteq> (Inl AssertionError :: nat exn + (string, nat) MultiMinio) \<and>
   (\<exists>s. (init [''a'', ''b''] FALLBACK 60 5 300 60 10 :: nat exn + (string, nat) MultiMinio) = Inr s \<and>
        clients s = [''a'', ''b''] \<and> current_client_index s = 0 \<and> current_fail_ts s = None) \<and>
   init [] FALLBACK 60 5 300 60 10 = (Inl AssertionError :: nat exn + (string, nat) MultiMinio) \<and>
   init [''a''] RANDOM 60 5 300 60 10 = (Inl AssertionError :: nat exn + (string, nat) MultiMinio) \<and>
   init [''a''] FALLBACK 60 5 19 60 10 = (Inl AssertionError :: nat exn + (string, nat) MultiMinio) \<and>
   init [''a''] FALLBACK 60 5 300 60 9 = (Inl AssertionError :: nat exn + (string, nat) MultiMinio)"
  using init_asserts [where ?'v = nat, of "[''a'', ''b'']" FALLBACK 60 5 300 60 10]
    init_asserts [where ?'v = nat, of "[] :: string list" FALLBACK 60 5 300 60 10]
    init_asserts [where ?'v = nat, of "[''a'']" RANDOM 60 5 300 60 10]
    init_asserts [where ?'v = nat, of "[''a'']" FALLBACK 60 5 19 60 10]
    init_asserts [where ?'v = nat, of "[''a'']" FALLBACK 60 5 300 60 9]
  by simp

subsection \<open>Claims about health retrieval\<close>

text \<open>
  Claim C5. A call of \<^verbatim>\<open>_retrieve_clients_health\<close> reads the clock once. If the timestamp
  of the last check is positive, the age of the stored statuses is strictly below
  \<^verbatim>\<open>health_check_min_interval\<close> and statuses are stored, it returns them, leaves the
  object as it is and probes no client. Otherwise it probes every client, in order and with
  the configured timeout, and replaces both the stored statuses and the timestamp (the
  reading of the clock taken after the probes). Consequently a second retrieval within the
  interval reuses the statuses of the first without a probe, and a retrieval once the
  interval has elapsed probes every client again.
\<close>

theorem retrieve_clients_health_cache:
  fixes s :: "('c, 'v) MultiMinio"
  shows
  "(last_health_check_ts s > 0 \<and>
      fst (now w) - last_health_check_ts s < health_check_min_interval s \<and>
      health_statuses s = Some hs \<longrightarrow>
        retrieve_clients_health s w = (Inr hs, s, snd (now w)) \<and>
        probes (snd (now w)) = probes w) \<and>
   (\<not> (last_health_check_ts s > 0 \<and>
      fst (now w) - last_health_check_ts s < health_check_min_interval s) \<longrightarrow>
        (\<exists>statuses s' w'. retrieve_clients_health s w = (Inr statuses, s', w') \<and>
           length statuses = length (clients s) \<and>
           probes w' = probes w @ map (\<lambda>c. (c, health_check_timeout s)) (clients s) \<and>
           s' = s\<lparr>last_health_check_ts := clock w (ticks w' - 1),
                  health_statuses := Some statuses\<rparr> \<and>
           (\<forall>v. 0 < last_health_check_ts s' \<and>
                fst (now v) - last_health_check_ts s' < health_check_min_interval s \<longrightarrow>
                retrieve_clients_health s' v = (Inr statuses, s', snd (now v)) \<and>
                probes (snd (now v)) = probes v) \<and>
           (\<forall>v. \<not> fst (now v) - last_health_check_ts s' < health_check_min_interval s \<longrightarrow>
                probes (snd (snd (retrieve_clients_health s' v))) =
                  probes v @ map (\<lambda>c. (c, health_check_timeout s)) (clients s))))"
proof (intro conjI impI)
  assume h: "last_health_check_ts s > 0 \<and>
      fst (now w) - last_health_check_ts s < health_check_min_interval s \<and>
      health_statuses s = Some hs"
  then show "retrieve_clients_health s w = (Inr hs, s, snd (now w))"
    by (simp add: retrieve_hit)
  show "probes (snd (now w)) = probes w" by (simp add: now_eq)
next
  assume miss: "\<not> (last_health_check_ts s > 0 \<and>
      fst (now w) - last_health_check_ts s < health_check_min_interval s)"
  from retrieve_miss [OF this] obtain statuses w' where
    r: "retrieve_clients_health s w =
      (Inr statuses, s\<lparr>last_health_check_ts := clock w (ticks w + 2 * length (clients s) + 1),
         health_statuses := Some statuses\<rparr>, w')"
    and len: "length statuses = length (clients s)"
    and w': "w' = w\<lparr>ticks := ticks w + 2 * length (clients s) + 2,
       probes := probes w @ map (\<lambda>c. (c, health_check_timeout s)) (clients s)\<rparr>"
    by blast
  let ?s' = "s\<lparr>last_health_check_ts := clock w (ticks w' - 1), health_statuses := Some statuses\<rparr>"
  have s'_eq: "s\<lparr>last_health_check_ts := clock w (ticks w + 2 * length (clients s) + 1),
         health_statuses := Some statuses\<rparr> = ?s'"
    by (simp add: w')
  have again: "\<forall>v. 0 < last_health_check_ts ?s' \<and>
                fst (now v) - last_health_check_ts ?s' < health_check_min_interval s \<longrightarrow>
                retrieve_clients_health ?s' v = (Inr statuses, ?s', snd (now v)) \<and>
                probes (snd (now v)) = probes v"
    using retrieve_hit [of ?s' _ statuses] by (simp add: now_eq)
  have later: "\<forall>v. \<not> fst (now v) - last_health_check_ts ?s' < health_check_min_interval s \<longrightarrow>
                probes (snd (snd (retrieve_clients_health ?s' v))) =
                  probes v @ map (\<lambda>c. (c, health_check_timeout s)) (clients s)"
  proof (intro allI impI)
    fix v :: "('c, 'v) world"
    assume "\<not> fst (now v) - last_health_check_ts ?s' < health_check_min_interval s"
    then have "\<not> (last_health_check_ts ?s' > 0 \<and>
      fst (now v) - last_health_check_ts ?s' < health_check_min_interval ?s')" by simp
    from retrieve_miss [OF this]
    show "probes (snd (snd (retrieve_clients_health ?s' v))) =
        probes v @ map (\<lambda>c. (c, health_check_timeout s)) (clients s)"
      by auto
  qed
  show "\<exists>statuses s' w'. retrieve_clients_health s w = (Inr statuses, s', w') \<and>
           length statuses = length (clients s) \<and>
           probes w' = probes w @ map (\<lambda>c. (c, health_check_timeout s)) (clients s) \<and>
           s' = s\<lparr>last_health_check_ts := clock w (ticks w' - 1),
                  health_statuses := Some statuses\<rparr> \<and>
           (\<forall>v. 0 < last_health_check_ts s' \<and>
                fst (now v) - last_health_check_ts s' < health_check_min_interval s \<longrightarrow>
                retrieve_clients_health s' v = (Inr statuses, s', snd (now v)) \<and>
                probes (snd (now v)) = probes v) \<and>
           (\<forall>v. \<not> fst (now v) - last_health_check_ts s' < health_check_min_interval s \<longrightarrow>
                probes (snd (snd (retrieve_clients_health s' v))) =
                  probes v @ map (\<lambda>c. (c, health_check_timeout s)) (clients s))"
    apply (rule exI [of _ statuses], rule exI [of _ ?s'], rule exI [of _ w'])
    using r len again later by (simp add: s'_eq w')
qed

theorem retrieve_clients_health_cache_witness:
  "retrieve_clients_health degraded_minio (test_world\<lparr>ticks := 10\<rparr>) =
     (Inr test_statuses, degraded_minio, test_world\<lparr>ticks := 11\<rparr>) \<and>
   retrieve_clients_health test_minio test_world =
     (Inr test_statuses,
      test_minio\<lparr>last_health_check_ts := 1005, health_statuses := Some test_statuses\<rparr>,
      test_world\<lparr>ticks := 6, probes := [(minio1, 5), (minio2, 5)]\<rparr>) \<and>
   retrieve_clients_health
     (test_minio\<lparr>last_health_check_ts := 1005, health_statuses := Some test_statuses\<rparr>)
     (test_world\<lparr>ticks := 6, probes := [(minio1, 5), (minio2, 5)]\<rparr>) =
     (Inr test_statuses,
      test_minio\<lparr>last_health_check_ts := 1005, health_statuses := Some test_statuses\<rparr>,
      test_world\<lparr>ticks := 7, probes := [(minio1, 5), (minio2, 5)]\<rparr>) \<and>
   probes (snd (snd (retrieve_clients_health
     (test_minio\<lparr>last_health_check_ts := 1005, health_statuses := Some test_statuses\<rparr>)
     (test_world\<lparr>ticks := 20, probes := [(minio1, 5), (minio2, 5)]\<rparr>)))) =
     [(minio1, 5), (minio2, 5), (minio1, 5), (minio2, 5)]"
proof -
  let ?s' = "test_minio\<lparr>last_health_check_ts := 1005, health_statuses := Some test_statuses\<rparr>"
  let ?w' = "test_world\<lparr>ticks := 6, probes := [(minio1, 5), (minio2, 5)]\<rparr>"
  have hit: "retrieve_clients_health degraded_minio (test_world\<lparr>ticks := 10\<rparr>) =
     (Inr test_statuses, degraded_minio, test_world\<lparr>ticks := 11\<rparr>)"
    using retrieve_clients_health_cache [of degraded_minio "test_world\<lparr>ticks := 10\<rparr>" test_statuses]
    by (simp add: now_def)
  have run: "retrieve_clients_health test_minio test_world = (Inr test_statuses, ?s', ?w')"
    by (simp add: eval_defs test_statuses_def eval_nat_numeral)
  from retrieve_clients_health_cache [of test_minio test_world] run
  have again: "\<forall>v. 0 < last_health_check_ts ?s' \<and>
        fst (now v) - last_health_check_ts ?s' < health_check_min_interval test_minio \<longrightarrow>
        retrieve_clients_health ?s' v = (Inr test_statuses, ?s', snd (now v))"
    and later: "\<forall>v. \<not> fst (now v) - last_health_check_ts ?s' < health_check_min_interval test_minio \<longrightarrow>
        probes (snd (snd (retrieve_clients_health ?s' v))) =
          probes v @ map (\<lambda>c. (c, health_check_timeout test_minio)) (clients test_minio)"
    by auto
  from again [rule_format, of ?w']
  have second: "retrieve_clients_health ?s' ?w' =
      (Inr test_statuses, ?s', test_world\<lparr>ticks := 7, probes := [(minio1, 5), (minio2, 5)]\<rparr>)"
    by (simp add: now_def)
  from later [rule_format, of "test_world\<lparr>ticks := 20, probes := [(minio1, 5), (minio2, 5)]\<rparr>"]
  have third: "probes (snd (snd (retrieve_clients_health ?s'
      (test_world\<lparr>ticks := 20, probes := [(minio1, 5), (minio2, 5)]\<rparr>)))) =
     [(minio1, 5), (minio2, 5), (minio1, 5), (minio2, 5)]"
    by (simp add: now_def)
  from hit run second third show ?thesis by simp
qed

subsection \<open>Claims about the current client\<close>

text \<open>
  Claim C6. A call of \<^verbatim>\<open>_get_current_client\<close> reads the clock once. If the current index
  is 0, or the time since the last health check does not exceed
  \<^verbatim>\<open>health_check_heartbeat\<close>, it returns the client at the current index and changes
  nothing in the object; no client is probed or called. Only when the index is positive and
  that time exceeds the heartbeat does it hand over to \<^verbatim>\<open>_get_next_client\<close>, whose
  result it returns. The index is taken to be a valid one, as it is in every state that the
  class reaches.
\<close>

theorem get_current_client_heartbeat:
  fixes s :: "('c, 'v) MultiMinio"
  shows
  "(current_client_index s < length (clients s) \<and>
    (current_client_index s = 0 \<or>
     fst (now w) - last_health_check_ts s \<le> health_check_heartbeat s) \<longrightarrow>
      get_current_client s w = Some (Inr (clients s ! current_client_index s), s, snd (now w)) \<and>
      probes (snd (now w)) = probes w \<and> calls (snd (now w)) = calls w) \<and>
   (current_client_index s > 0 \<and>
    fst (now w) - last_health_check_ts s > health_check_heartbeat s \<longrightarrow>
      get_current_client s w = get_next_client s (snd (now w)))"
  by (auto simp: get_current_client_def now_eq Let_def current_client_def)

theorem get_current_client_heartbeat_witness:
  "get_current_client test_minio test_world = Some (Inr minio1, test_minio, test_world\<lparr>ticks := 1\<rparr>) \<and>
   get_current_client degraded_minio (test_world\<lparr>ticks := 10\<rparr>) =
     Some (Inr minio2, degraded_minio, test_world\<lparr>ticks := 11\<rparr>) \<and>
   get_current_client degraded_minio recovered_world =
     get_next_client degraded_minio (recovered_world\<lparr>ticks := 401\<rparr>) \<and>
   get_current_client degraded_minio recovered_world =
     Some (Inr minio1,
       degraded_minio\<lparr>current_client_index := 0, last_health_check_ts := 1407,
         health_statuses := Some healthy_statuses\<rparr>,
       recovered_world\<lparr>ticks := 408, probes := [(minio1, 5), (minio2, 5)]\<rparr>)"
proof -
  have a: "get_current_client test_minio test_world =
      Some (Inr minio1, test_minio, test_world\<lparr>ticks := 1\<rparr>)"
    using get_current_client_heartbeat [of test_minio test_world] by (simp add: now_def)
  have b: "get_current_client degraded_minio (test_world\<lparr>ticks := 10\<rparr>) =
     Some (Inr minio2, degraded_minio, test_world\<lparr>ticks := 11\<rparr>)"
    using get_current_client_heartbeat [of degraded_minio "test_world\<lparr>ticks := 10\<rparr>"]
    by (simp add: now_def)
  have c: "get_current_client degraded_minio recovered_world =
     get_next_client degraded_minio (recovered_world\<lparr>ticks := 401\<rparr>)"
    using get_current_client_heartbeat [of degraded_minio recovered_world]
    by (simp add: now_def)
  have d: "get_next_client degraded_minio (recovered_world\<lparr>ticks := 401\<rparr>) =
     Some (Inr minio1,
       degraded_minio\<lparr>current_client_index := 0, last_health_check_ts := 1407,
         health_statuses := Some healthy_statuses\<rparr>,
       recovered_world\<lparr>ticks := 408, probes := [(minio1, 5), (minio2, 5)]\<rparr>)"
    by (simp add: get_next_client_loop.simps eval_defs healthy_statuses_def)
  from a b c d show ?thesis by simp
qed

subsection \<open>Claims about the search for a healthy client\<close>

text \<open>
  Claim C2. Whenever the statuses that \<^verbatim>\<open>_get_next_client\<close> retrieves contain an entry
  with status code 200, the search sets the current index to the smallest index \<open>i\<close> of
  such an entry and returns the client at \<open>i\<close> at once: the order is that of the clients
  given at construction. The stored statuses are taken to be aligned with the clients, as
  they are in every state that the class reaches.
\<close>

theorem get_next_client_first_healthy:
  assumes "aligned s"
    and "start_ts_of s w = (start_ts, w0)"
    and "retrieve_clients_health s w0 = (Inr hs, s1, w1)"
    and "\<exists>h \<in> set hs. status_code h = Code 200"
  shows "\<exists>i. i < length hs \<and> status_code (hs ! i) = Code 200 \<and>
      (\<forall>j < i. status_code (hs ! j) \<noteq> Code 200) \<and>
      get_next_client s w =
        Some (Inr (clients s ! i), s1\<lparr>current_client_index := i\<rparr>, w1)"
proof -
  from assms(4) obtain i where i: "first_healthy hs = Some i"
    using first_healthy_None [of hs] by (cases "first_healthy hs") auto
  note fh = first_healthy_Some [OF i]
  from retrieve_aligned [OF assms(3,1)] retrieve_Inr [OF assms(3)]
  have len: "length hs = length (clients s1)" by (simp add: aligned_def)
  from retrieve_frame [OF assms(3)] have cl: "clients s1 = clients s"
    by (simp add: same_config_def)
  from fh len have "current_client (s1\<lparr>current_client_index := i\<rparr>) = Inr (clients s ! i)"
    by (simp add: current_client_def cl)
  with loop_found [OF assms(3) i, of start_ts] assms(2)
  have "get_next_client s w = Some (Inr (clients s ! i), s1\<lparr>current_client_index := i\<rparr>, w1)"
    by (simp add: get_next_client_def)
  with fh show ?thesis by blast
qed

theorem get_next_client_first_healthy_witness:
  "aligned test_minio \<and>
   start_ts_of test_minio test_world = (1000, test_world\<lparr>ticks := 1\<rparr>) \<and>
   retrieve_clients_health test_minio (test_world\<lparr>ticks := 1\<rparr>) =
     (Inr test_statuses,
      test_minio\<lparr>last_health_check_ts := 1006, health_statuses := Some test_statuses\<rparr>,
      test_world\<lparr>ticks := 7, probes := [(minio1, 5), (minio2, 5)]\<rparr>) \<and>
   status_code (test_statuses ! 0) \<noteq> Code 200 \<and>
   status_code (test_statuses ! 1) = Code 200 \<and>
   get_next_client test_minio test_world =
     Some (Inr minio2,
       test_minio\<lparr>current_client_index := 1, last_health_check_ts := 1006,
         health_statuses := Some test_statuses\<rparr>,
       test_world\<lparr>ticks := 7, probes := [(minio1, 5), (minio2, 5)]\<rparr>)"
proof -
  let ?s1 = "test_minio\<lparr>last_health_check_ts := 1006, health_statuses := Some test_statuses\<rparr>"
  let ?w1 = "test_world\<lparr>ticks := 7, probes := [(minio1, 5), (minio2, 5)]\<rparr>"
  have a: "aligned test_minio" by (simp add: aligned_def)
  have b: "start_ts_of test_minio test_world = (1000, test_world\<lparr>ticks := 1\<rparr>)"
    by (simp add: start_ts_of_def now_def)
  have c: "retrieve_clients_health test_minio (test_world\<lparr>ticks := 1\<rparr>) =
     (Inr test_statuses, ?s1, ?w1)"
    by (simp add: eval_defs test_statuses_def eval_nat_numeral)
  have d: "\<exists>h \<in> set test_statuses. status_code h = Code 200"
    by (simp add: test_statuses_def)
  have e: "status_code (test_statuses ! 0) \<noteq> Code 200" "status_code (test_statuses ! 1) = Code 200"
    by (simp_all add: test_statuses_def)
  from get_next_client_first_healthy [OF a b c d] obtain i where
    i: "i < length test_statuses" "status_code (test_statuses ! i) = Code 200"
    and r: "get_next_client test_minio test_world =
        Some (Inr (clients test_minio ! i), ?s1\<lparr>current_client_index := i\<rparr>, ?w1)"
    by blast
  from i have "i = 1" by (cases i) (simp_all add: test_statuses_def)
  with r have "get_next_client test_minio test_world =
     Some (Inr minio2,
       test_minio\<lparr>current_client_index := 1, last_health_check_ts := 1006,
         health_statuses := Some test_statuses\<rparr>, ?w1)"
    by simp
  with a b c e show ?thesis by simp
qed

text \<open>
  Claim C3. In a turn of the search loop in which no retrieved status equals 200, the
  search reads the clock and raises the \<^verbatim>\<open>MinioException\<close> "all clients are down"
  exactly when the time since \<^verbatim>\<open>start_ts\<close> exceeds \<^verbatim>\<open>fallback_timeout\<close>; otherwise
  it goes round the loop again, with the object as health retrieval left it. The start is
  the recorded start of the failures when one is recorded (and is not the zero timestamp,
  which Python's \<^verbatim>\<open>or\<close> skips), else the reading of the clock on entry. Whenever the
  search ends with that exception the elapsed time it reports exceeds the timeout and is
  the last reading of the clock minus the start, whatever the number of turns; and a client
  that the search returns has status 200 in the statuses that the object then holds.
\<close>

theorem get_next_client_all_down:
  fixes s :: "('c, 'v) MultiMinio"
  shows
  "(retrieve_clients_health s w = (Inr hs, s1, w1) \<and> (\<forall>h \<in> set hs. status_code h \<noteq> Code 200) \<longrightarrow>
      get_next_client_loop start_ts s w =
        (if fst (now w1) - start_ts > fallback_timeout s
         then Some (Inl (MinioException (All_down (fst (now w1) - start_ts))), s1, snd (now w1))
         else get_next_client_loop start_ts s1 (snd (now w1)))) \<and>
   get_next_client s v = get_next_client_loop (fst (start_ts_of s v)) s (snd (start_ts_of s v)) \<and>
   (current_fail_ts s = Some f \<and> f \<noteq> 0 \<longrightarrow> start_ts_of s v = (f, v)) \<and>
   (get_next_client s v = Some (Inl (MinioException (All_down d)), s', v') \<longrightarrow>
      d > fallback_timeout s \<and> d = clock v (ticks v' - 1) - fst (start_ts_of s v)) \<and>
   (get_next_client s v = Some (Inr c, s', v') \<longrightarrow>
      (\<exists>hs'. health_statuses s' = Some hs' \<and> current_client_index s' < length hs' \<and>
         status_code (hs' ! current_client_index s') = Code 200 \<and>
         c = clients s ! current_client_index s'))"
proof (intro conjI impI)
  assume "retrieve_clients_health s w = (Inr hs, s1, w1) \<and> (\<forall>h \<in> set hs. status_code h \<noteq> Code 200)"
  then show "get_next_client_loop start_ts s w =
        (if fst (now w1) - start_ts > fallback_timeout s
         then Some (Inl (MinioException (All_down (fst (now w1) - start_ts))), s1, snd (now w1))
         else get_next_client_loop start_ts s1 (snd (now w1)))"
    using loop_none [of s w hs s1 w1 start_ts] by (simp add: first_healthy_None)
next
  show "get_next_client s v = get_next_client_loop (fst (start_ts_of s v)) s (snd (start_ts_of s v))"
    by (simp add: get_next_client_def split: prod.splits)
next
  assume "current_fail_ts s = Some f \<and> f \<noteq> 0"
  then show "start_ts_of s v = (f, v)" by (simp add: start_ts_of_def)
next
  assume a: "get_next_client s v = Some (Inl (MinioException (All_down d)), s', v')"
  obtain start_ts w0 where st: "start_ts_of s v = (start_ts, w0)" by force
  with a have l: "get_next_client_loop start_ts s w0 = Some (Inl (MinioException (All_down d)), s', v')"
    by (simp add: get_next_client_def)
  from loop_all_down [OF l, of d] start_ts_of_world [OF st] st
  show "d > fallback_timeout s" "d = clock v (ticks v' - 1) - fst (start_ts_of s v)"
    by simp_all
next
  assume a: "get_next_client s v = Some (Inr c, s', v')"
  obtain start_ts w0 where st: "start_ts_of s v = (start_ts, w0)" by force
  with a have l: "get_next_client_loop start_ts s w0 = Some (Inr c, s', v')"
    by (simp add: get_next_client_def)
  from loop_healthy [OF l, of c] loop_frame [OF l]
  show "\<exists>hs'. health_statuses s' = Some hs' \<and> current_client_index s' < length hs' \<and>
         status_code (hs' ! current_client_index s') = Code 200 \<and>
         c = clients s ! current_client_index s'"
    by (auto simp: same_config_def)
qed

theorem get_next_client_all_down_witness:
  "retrieve_clients_health test_minio (down_world\<lparr>ticks := 1\<rparr>) =
     (Inr down_statuses,
      test_minio\<lparr>last_health_check_ts := 2030, health_statuses := Some down_statuses\<rparr>,
      down_world\<lparr>ticks := 7, probes := [(minio1, 5), (minio2, 5)]\<rparr>) \<and>
   first_healthy down_statuses = None \<and>
   get_next_client_loop 2000 test_minio (down_world\<lparr>ticks := 1\<rparr>) =
     get_next_client_loop 2000
       (test_minio\<lparr>last_health_check_ts := 2030, health_statuses := Some down_statuses\<rparr>)
       (down_world\<lparr>ticks := 8, probes := [(minio1, 5), (minio2, 5)]\<rparr>) \<and>
   get_next_client test_minio down_world =
     Some (Inl (MinioException (All_down 70)),
       test_minio\<lparr>last_health_check_ts := 2065, health_statuses := Some down_statuses\<rparr>,
       down_world\<lparr>ticks := 15, probes := [(minio1, 5), (minio2, 5), (minio1, 5), (minio2, 5)]\<rparr>) \<and>
   fallback_timeout test_minio < 70 \<and>
   clock down_world 14 - fst (start_ts_of test_minio down_world) = 70 \<and>
   start_ts_of (test_minio\<lparr>current_fail_ts := Some 1990\<rparr>) down_world = (1990, down_world) \<and>
   get_next_client test_minio test_world =
     Some (Inr minio2,
       test_minio\<lparr>current_client_index := 1, last_health_check_ts := 1006,
         health_statuses := Some test_statuses\<rparr>,
       test_world\<lparr>ticks := 7, probes := [(minio1, 5), (minio2, 5)]\<rparr>) \<and>
   status_code (test_statuses ! 1) = Code 200"
proof -
  let ?s1 = "test_minio\<lparr>last_health_check_ts := 2030, health_statuses := Some down_statuses\<rparr>"
  let ?w1 = "down_world\<lparr>ticks := 7, probes := [(minio1, 5), (minio2, 5)]\<rparr>"
  let ?w1' = "down_world\<lparr>ticks := 8, probes := [(minio1, 5), (minio2, 5)]\<rparr>"
  let ?s2 = "test_minio\<lparr>last_health_check_ts := 2065, health_statuses := Some down_statuses\<rparr>"
  let ?w2 = "down_world\<lparr>ticks := 14, probes := [(minio1, 5), (minio2, 5), (minio1, 5), (minio2, 5)]\<rparr>"
  let ?w2' = "down_world\<lparr>ticks := 15, probes := [(minio1, 5), (minio2, 5), (minio1, 5), (minio2, 5)]\<rparr>"
  let ?s3 = "test_minio\<lparr>current_client_index := 1, last_health_check_ts := 1006,
         health_statuses := Some test_statuses\<rparr>"
  let ?w3 = "test_world\<lparr>ticks := 7, probes := [(minio1, 5), (minio2, 5)]\<rparr>"
  have down: "\<forall>h \<in> set down_statuses. status_code h \<noteq> Code 200"
    by (simp add: down_statuses_def)
  have none: "first_healthy down_statuses = None"
    by (simp add: first_healthy_def down_statuses_def)
  have r1: "retrieve_clients_health test_minio (down_world\<lparr>ticks := 1\<rparr>) =
      (Inr down_statuses, ?s1, ?w1)"
    by (simp add: eval_defs down_statuses_def eval_nat_numeral)
  have r2: "retrieve_clients_health ?s1 ?w1' = (Inr down_statuses, ?s2, ?w2)"
    by (simp add: eval_defs down_statuses_def eval_nat_numeral)
  have st: "start_ts_of test_minio down_world = (2000, down_world\<lparr>ticks := 1\<rparr>)"
    by (simp add: start_ts_of_def now_def)
  have step1: "get_next_client_loop 2000 test_minio (down_world\<lparr>ticks := 1\<rparr>) =
      get_next_client_loop 2000 ?s1 ?w1'"
    using get_next_client_all_down [where s = test_minio and w = "down_world\<lparr>ticks := 1\<rparr>"
        and hs = down_statuses and ?s1.0 = ?s1 and ?w1.0 = ?w1 and start_ts = 2000] r1 down
    by (simp add: now_def)
  have step2: "get_next_client_loop 2000 ?s1 ?w1' =
      Some (Inl (MinioException (All_down 70)), ?s2, ?w2')"
    using get_next_client_all_down [where s = ?s1 and w = ?w1'
        and hs = down_statuses and ?s1.0 = ?s2 and ?w1.0 = ?w2 and start_ts = 2000] r2 down
    by (simp add: now_def)
  have run: "get_next_client test_minio down_world =
      Some (Inl (MinioException (All_down 70)), ?s2, ?w2')"
    using get_next_client_all_down [where s = test_minio and v = down_world] st step1 step2
    by simp
  have late: "fallback_timeout test_minio < 70"
    "clock down_world 14 - fst (start_ts_of test_minio down_world) = 70"
    using get_next_client_all_down [where s = test_minio and v = down_world and d = 70
        and s' = ?s2 and v' = ?w2'] run
    by simp_all
  have marker: "start_ts_of (test_minio\<lparr>current_fail_ts := Some 1990\<rparr>) down_world =
      (1990, down_world)"
    using get_next_client_all_down [where s = "test_minio\<lparr>current_fail_ts := Some 1990\<rparr>"
        and v = down_world and f = 1990]
    by simp
  have found: "get_next_client test_minio test_world = Some (Inr minio2, ?s3, ?w3)"
    by (simp add: get_next_client_loop.simps eval_defs test_statuses_def)
  have healthy: "status_code (test_statuses ! 1) = Code 200"
    using get_next_client_all_down [where s = test_minio and v = test_world and c = minio2
        and s' = ?s3 and v' = ?w3] found
    by simp
  from r1 none step1 run late marker found healthy show ?thesis by simp
qed

text \<open>
  Claim C10. When the search ends by raising "all clients are down", the current index is
  the one it was on entry, and so are the parameters of the object; the stored statuses and
  their timestamp may have been replaced. In general the search leaves the index as it was
  or sets it to the index of a status that equals 200.
\<close>

theorem get_next_client_failure_keeps_index:
  fixes s :: "('c, 'v) MultiMinio"
  shows
  "(get_next_client s w = Some (Inl (MinioException (All_down d)), s', w') \<longrightarrow>
      current_client_index s' = current_client_index s \<and> same_config s s') \<and>
   (get_next_client s w = Some (r, s', w') \<and> current_client_index s' \<noteq> current_client_index s \<longrightarrow>
      (\<exists>hs. health_statuses s' = Some hs \<and> current_client_index s' < length hs \<and>
         status_code (hs ! current_client_index s') = Code 200))"
proof (intro conjI impI)
  assume a: "get_next_client s w = Some (Inl (MinioException (All_down d)), s', w')"
  obtain start_ts w0 where st: "start_ts_of s w = (start_ts, w0)" by force
  with a have l: "get_next_client_loop start_ts s w0 = Some (Inl (MinioException (All_down d)), s', w')"
    by (simp add: get_next_client_def)
  from loop_all_down [OF l, of d] show "current_client_index s' = current_client_index s" by simp
  from loop_frame [OF l] show "same_config s s'" by simp
next
  assume a: "get_next_client s w = Some (r, s', w') \<and> current_client_index s' \<noteq> current_client_index s"
  obtain start_ts w0 where st: "start_ts_of s w = (start_ts, w0)" by force
  with a have l: "get_next_client_loop start_ts s w0 = Some (r, s', w')"
    by (simp add: get_next_client_def)
  from loop_index [OF l] a
  show "\<exists>hs. health_statuses s' = Some hs \<and> current_client_index s' < length hs \<and>
         status_code (hs ! current_client_index s') = Code 200" by simp
qed

theorem get_next_client_failure_keeps_index_witness:
  "get_next_client degraded_minio down_world =
     Some (Inl (MinioException (All_down 70)),
       degraded_minio\<lparr>last_health_check_ts := 2065, health_statuses := Some down_statuses\<rparr>,
       down_world\<lparr>ticks := 15, probes := [(minio1, 5), (minio2, 5), (minio1, 5), (minio2, 5)]\<rparr>) \<and>
   current_client_index
     (degraded_minio\<lparr>last_health_check_ts := 2065, health_statuses := Some down_statuses\<rparr>) =
     current_client_index degraded_minio \<and>
   last_health_check_ts
     (degraded_minio\<lparr>last_health_check_ts := 2065, health_statuses := Some down_statuses\<rparr>) \<noteq>
     last_health_check_ts degraded_minio \<and>
   get_next_client test_minio test_world =
     Some (Inr minio2,
       test_minio\<lparr>current_client_index := 1, last_health_check_ts := 1006,
         health_statuses := Some test_statuses\<rparr>,
       test_world\<lparr>ticks := 7, probes := [(minio1, 5), (minio2, 5)]\<rparr>) \<and>
   current_client_index test_minio = 0 \<and>
   status_code (test_statuses ! 1) = Code 200"
proof -
  let ?s2 = "degraded_minio\<lparr>last_health_check_ts := 2065, health_statuses := Some down_statuses\<rparr>"
  let ?w2 = "down_world\<lparr>ticks := 15, probes := [(minio1, 5), (minio2, 5), (minio1, 5), (minio2, 5)]\<rparr>"
  let ?s3 = "test_minio\<lparr>current_client_index := 1, last_health_check_ts := 1006,
         health_statuses := Some test_statuses\<rparr>"
  let ?w3 = "test_world\<lparr>ticks := 7, probes := [(minio1, 5), (minio2, 5)]\<rparr>"
  have run: "get_next_client degraded_minio down_world =
      Some (Inl (MinioException (All_down 70)), ?s2, ?w2)"
    by (simp add: get_next_client_loop.simps eval_defs down_statuses_def)
  have keep: "current_client_index ?s2 = current_client_index degraded_minio"
    using get_next_client_failure_keeps_index [where s = degraded_minio and w = down_world
        and d = 70 and s' = ?s2 and w' = ?w2] run
    by blast
  have found: "get_next_client test_minio test_world = Some (Inr minio2, ?s3, ?w3)"
    by (simp add: get_next_client_loop.simps eval_defs test_statuses_def)
  have healthy: "status_code (test_statuses ! 1) = Code 200"
    using get_next_client_failure_keeps_index [where s = test_minio and w = test_world
        and r = "Inr minio2" and s' = ?s3 and w' = ?w3] found
    by simp
  from run keep found healthy show ?thesis by simp
qed

text \<open>
  Claim C8 says that the search records the start of the failures on its first entry. It
  does not: \<^verbatim>\<open>_get_next_client\<close> assigns \<^verbatim>\<open>start_ts\<close>, a local variable, and never
  \<^verbatim>\<open>_current_fail_ts\<close>. In the run below the object serves from the second client, no
  start of failures is recorded, the heartbeat has expired and no client can be reached. The
  search, entered from \<^verbatim>\<open>_get_current_client\<close>, gives up after 70 seconds and leaves
  no start recorded; a later call enters the search again and again reports 70 seconds,
  measured from its own entry, although 570 seconds have passed since the first entry.
\<close>

theorem get_next_client_marker_counterexample:
  "current_fail_ts degraded_minio = None \<and>
   execute_with_fallback get_object degraded_minio down_world =
     Some (Inl (MinioException (All_down 70)),
       degraded_minio\<lparr>last_health_check_ts := 2075, health_statuses := Some down_statuses\<rparr>,
       down_world\<lparr>ticks := 17, probes := [(minio1, 5), (minio2, 5), (minio1, 5), (minio2, 5)]\<rparr>) \<and>
   current_fail_ts
     (degraded_minio\<lparr>last_health_check_ts := 2075, health_statuses := Some down_statuses\<rparr>) = None \<and>
   execute_with_fallback get_object
     (degraded_minio\<lparr>last_health_check_ts := 2075, health_statuses := Some down_statuses\<rparr>)
     (down_world\<lparr>ticks := 100, probes := [(minio1, 5), (minio2, 5), (minio1, 5), (minio2, 5)]\<rparr>) =
     Some (Inl (MinioException (All_down 70)),
       degraded_minio\<lparr>last_health_check_ts := 2575, health_statuses := Some down_statuses\<rparr>,
       down_world\<lparr>ticks := 117,
         probes := [(minio1, 5), (minio2, 5), (minio1, 5), (minio2, 5),
                    (minio1, 5), (minio2, 5), (minio1, 5), (minio2, 5)]\<rparr>) \<and>
   clock down_world 116 - clock down_world 2 = 570"
  by (simp add: execute_with_fallback_def get_current_client_def get_next_client_loop.simps
      eval_defs down_statuses_def)

text \<open>
  Claim C8, amended. The search never assigns the recorded start of the failures: it is
  after the search what it was before. The search measures the downtime from the recorded
  start when one is recorded (and is not the zero timestamp), and from the reading of the
  clock on its own entry when none is. Recording is the wrapper's work: the handler of a
  failed call stores the start time of the wrapped call before it enters the search, and
  only if no start is recorded, so a recorded start is never overwritten.
\<close>

theorem get_next_client_reads_marker:
  fixes s :: "('c, 'v) MultiMinio"
  shows
  "(get_next_client s w = Some (r, s', w') \<longrightarrow> current_fail_ts s' = current_fail_ts s) \<and>
   get_next_client s w = get_next_client_loop (fst (start_ts_of s w)) s (snd (start_ts_of s w)) \<and>
   (current_fail_ts s = Some f \<and> f \<noteq> 0 \<longrightarrow> start_ts_of s w = (f, w)) \<and>
   (current_fail_ts s = None \<longrightarrow> start_ts_of s w = now w) \<and>
   (fst (now v) - t < fallback_timeout s \<and>
    invoke c cmd (snd (now v)) = (Raises_Exception e, v2) \<longrightarrow>
      execute_loop t cmd c s v =
        (case get_next_client (mark_failure t s) v2 of
           None \<Rightarrow> None
         | Some (r, s2, v3) \<Rightarrow>
             (case r of
                Inl e' \<Rightarrow> Some (Inl e', s2, v3)
              | Inr next_client \<Rightarrow> execute_loop t cmd next_client s2 v3))) \<and>
   (current_fail_ts s = None \<longrightarrow> mark_failure t s = s\<lparr>current_fail_ts := Some t\<rparr>) \<and>
   (current_fail_ts s = Some f \<longrightarrow> mark_failure t s = s)"
  using get_next_client_frame(2) [of s w r s' w'] exec_handler [of v t s c cmd e v2]
  by (simp add: start_ts_of_def mark_failure_def get_next_client_def split: prod.splits)

theorem get_next_client_reads_marker_witness:
  "get_next_client test_minio down_world =
     Some (Inl (MinioException (All_down 70)),
       test_minio\<lparr>last_health_check_ts := 2065, health_statuses := Some down_statuses\<rparr>,
       down_world\<lparr>ticks := 15, probes := [(minio1, 5), (minio2, 5), (minio1, 5), (minio2, 5)]\<rparr>) \<and>
   current_fail_ts
     (test_minio\<lparr>last_health_check_ts := 2065, health_statuses := Some down_statuses\<rparr>) =
     current_fail_ts test_minio \<and>
   start_ts_of (test_minio\<lparr>current_fail_ts := Some 1990\<rparr>) down_world = (1990, down_world) \<and>
   get_next_client (test_minio\<lparr>current_fail_ts := Some 1990\<rparr>) down_world =
     Some (Inl (MinioException (All_down 75)),
       test_minio\<lparr>last_health_check_ts := 2060, current_fail_ts := Some 1990,
         health_statuses := Some down_statuses\<rparr>,
       down_world\<lparr>ticks := 14, probes := [(minio1, 5), (minio2, 5), (minio1, 5), (minio2, 5)]\<rparr>) \<and>
   start_ts_of test_minio down_world = (2000, down_world\<lparr>ticks := 1\<rparr>) \<and>
   invoke minio1 get_object (down_world\<lparr>ticks := 3\<rparr>) =
     (Raises_Exception ''connection refused'', down_world\<lparr>ticks := 3, calls := [minio1]\<rparr>) \<and>
   execute_loop 2000 get_object minio1 test_minio (down_world\<lparr>ticks := 2\<rparr>) =
     Some (Inl (MinioException (All_down 80)),
       test_minio\<lparr>last_health_check_ts := 2075, current_fail_ts := Some 2000,
         health_statuses := Some down_statuses\<rparr>,
       down_world\<lparr>ticks := 17, probes := [(minio1, 5), (minio2, 5), (minio1, 5), (minio2, 5)],
         calls := [minio1]\<rparr>) \<and>
   mark_failure 2000 test_minio = test_minio\<lparr>current_fail_ts := Some 2000\<rparr> \<and>
   mark_failure 2000 (test_minio\<lparr>current_fail_ts := Some 1990\<rparr>) =
     test_minio\<lparr>current_fail_ts := Some 1990\<rparr>"
proof -
  let ?m = "test_minio\<lparr>current_fail_ts := Some 1990\<rparr>"
  let ?s2 = "test_minio\<lparr>last_health_check_ts := 2065, health_statuses := Some down_statuses\<rparr>"
  let ?w2 = "down_world\<lparr>ticks := 15, probes := [(minio1, 5), (minio2, 5), (minio1, 5), (minio2, 5)]\<rparr>"
  let ?w3 = "down_world\<lparr>ticks := 3, calls := [minio1]\<rparr>"
  have run: "get_next_client test_minio down_world =
      Some (Inl (MinioException (All_down 70)), ?s2, ?w2)"
    by (simp add: get_next_client_loop.simps eval_defs down_statuses_def)
  have kept: "current_fail_ts ?s2 = current_fail_ts test_minio"
    using get_next_client_reads_marker [where s = test_minio and w = down_world
        and r = "Inl (MinioException (All_down 70))" and s' = ?s2 and w' = ?w2] run
    by blast
  have st: "start_ts_of ?m down_world = (1990, down_world)"
    using get_next_client_reads_marker [where s = ?m and w = down_world and f = 1990]
    by simp
  have run2: "get_next_client ?m down_world =
     Some (Inl (MinioException (All_down 75)),
       test_minio\<lparr>last_health_check_ts := 2060, current_fail_ts := Some 1990,
         health_statuses := Some down_statuses\<rparr>,
       down_world\<lparr>ticks := 14, probes := [(minio1, 5), (minio2, 5), (minio1, 5), (minio2, 5)]\<rparr>)"
    using get_next_client_reads_marker [where s = ?m and w = down_world] st
    by (simp add: get_next_client_loop.simps eval_defs down_statuses_def)
  have st0: "start_ts_of test_minio down_world = (2000, down_world\<lparr>ticks := 1\<rparr>)"
    using get_next_client_reads_marker [where s = test_minio and w = down_world]
    by (simp add: now_def)
  have inv: "invoke minio1 get_object (down_world\<lparr>ticks := 3\<rparr>) =
     (Raises_Exception ''connection refused'', ?w3)"
    by (simp add: invoke_def)
  have mark: "mark_failure 2000 test_minio = test_minio\<lparr>current_fail_ts := Some 2000\<rparr>"
    using get_next_client_reads_marker [where s = test_minio and t = 2000] by simp
  have mark2: "mark_failure 2000 ?m = ?m"
    using get_next_client_reads_marker [where s = ?m and t = 2000 and f = 1990] by simp
  have search: "get_next_client (test_minio\<lparr>current_fail_ts := Some 2000\<rparr>) ?w3 =
     Some (Inl (MinioException (All_down 80)),
       test_minio\<lparr>last_health_check_ts := 2075, current_fail_ts := Some 2000,
         health_statuses := Some down_statuses\<rparr>,
       down_world\<lparr>ticks := 17, probes := [(minio1, 5), (minio2, 5), (minio1, 5), (minio2, 5)],
         calls := [minio1]\<rparr>)"
    by (simp add: get_next_client_loop.simps eval_defs down_statuses_def)
  have loop: "execute_loop 2000 get_object minio1 test_minio (down_world\<lparr>ticks := 2\<rparr>) =
     Some (Inl (MinioException (All_down 80)),
       test_minio\<lparr>last_health_check_ts := 2075, current_fail_ts := Some 2000,
         health_statuses := Some down_statuses\<rparr>,
       down_world\<lparr>ticks := 17, probes := [(minio1, 5), (minio2, 5), (minio1, 5), (minio2, 5)],
         calls := [minio1]\<rparr>)"
    using get_next_client_reads_marker [where s = test_minio and v = "down_world\<lparr>ticks := 2\<rparr>"
        and t = 2000 and c = minio1 and cmd = get_object and e = "''connection refused''"
        and ?v2.0 = ?w3] inv mark search
    by (simp add: now_def)
  from run kept st run2 st0 inv loop mark mark2 show ?thesis by simp
qed

subsection \<open>Claims about the wrapper\<close>

text \<open>
  Claim C4. When the call of the wrapped method raises an \<^verbatim>\<open>S3Error\<close> or an
  \<^verbatim>\<open>InvalidResponseError\<close>, the wrapper raises that very exception at once. In any turn
  of the retry loop the object is left exactly as it was at the call (current index and
  recorded start of failures included), no health request is made and the only method call
  logged is the one that raised. For the whole wrapper: the result is that exception, the
  state is the one \<^verbatim>\<open>_get_current_client\<close> returned, the failing call is the only call
  made, and when the index is 0 or the heartbeat has not expired the object and the log of
  health requests are those of before the call.
\<close>

theorem application_error_propagates:
  fixes s :: "('c, 'v) MultiMinio"
  shows
  "(fst (now w) - start_try_ts < fallback_timeout s \<and>
    invoke c cmd (snd (now w)) = (out, w2) \<and> application_error out = Some err \<longrightarrow>
      execute_loop start_try_ts cmd c s w = Some (Inl err, s, w2) \<and>
      probes w2 = probes w \<and> calls w2 = calls w @ [c]) \<and>
   (get_current_client s (snd (now v)) = Some (Inr c, s1, v2) \<and>
    fst (now v2) - fst (now v) < fallback_timeout s \<and>
    invoke c cmd (snd (now v2)) = (out, v3) \<and> application_error out = Some err \<longrightarrow>
      execute_with_fallback cmd s v = Some (Inl err, s1, v3) \<and>
      probes v3 = probes v2 \<and> calls v3 = calls v @ [c] \<and>
      (current_client_index s = 0 \<or>
       fst (now (snd (now v))) - last_health_check_ts s \<le> health_check_heartbeat s \<longrightarrow>
         s1 = s \<and> probes v3 = probes v))"
proof (intro conjI impI)
  assume a: "fst (now w) - start_try_ts < fallback_timeout s \<and>
    invoke c cmd (snd (now w)) = (out, w2) \<and> application_error out = Some err"
  then show "execute_loop start_try_ts cmd c s w = Some (Inl err, s, w2)"
    by (intro exec_application_error [of w start_try_ts s c cmd out w2 err]) simp_all
  from a invoke_world [of c cmd "snd (now w)" out w2]
  show "probes w2 = probes w" "calls w2 = calls w @ [c]" by (simp_all add: now_eq)
next
  assume a: "get_current_client s (snd (now v)) = Some (Inr c, s1, v2) \<and>
    fst (now v2) - fst (now v) < fallback_timeout s \<and>
    invoke c cmd (snd (now v2)) = (out, v3) \<and> application_error out = Some err"
  then have g: "get_current_client s (snd (now v)) = Some (Inr c, s1, v2)"
    and t: "fst (now v2) - fst (now v) < fallback_timeout s"
    and i: "invoke c cmd (snd (now v2)) = (out, v3)" and e: "application_error out = Some err"
    by simp_all
  from get_current_client_frame [OF g] have cfg: "fallback_timeout s1 = fallback_timeout s"
    and cl: "calls v2 = calls v" by (simp_all add: same_config_def now_eq)
  from t cfg have t': "fst (now v2) - fst (now v) < fallback_timeout s1" by simp
  from exec_application_error [OF t' i e] g
  show "execute_with_fallback cmd s v = Some (Inl err, s1, v3)"
    by (simp add: execute_with_fallback_def now_eq)
  from invoke_world [OF i] cl
  show "probes v3 = probes v2" "calls v3 = calls v @ [c]" by (simp_all add: now_eq)
  assume "current_client_index s = 0 \<or>
       fst (now (snd (now v))) - last_health_check_ts s \<le> health_check_heartbeat s"
  with g invoke_world [OF i] show "s1 = s" "probes v3 = probes v"
    by (auto simp: get_current_client_def now_eq Let_def split: if_splits)
qed

theorem application_error_propagates_witness:
  "application_error (Raises_InvalidResponseError ''400'') = Some (InvalidResponseError ''400'') \<and>
   execute_loop 1000 get_object minio2 degraded_minio (invalid_world\<lparr>ticks := 10\<rparr>) =
     Some (Inl (InvalidResponseError ''400''), degraded_minio,
       invalid_world\<lparr>ticks := 11, calls := [minio2]\<rparr>) \<and>
   get_current_client test_minio (s3_world\<lparr>ticks := 1\<rparr>) =
     Some (Inr minio1, test_minio, s3_world\<lparr>ticks := 2\<rparr>) \<and>
   application_error (Raises_S3Error ''NoSuchKey'') = Some (S3Error ''NoSuchKey'') \<and>
   execute_with_fallback get_object test_minio s3_world =
     Some (Inl (S3Error ''NoSuchKey''), test_minio, s3_world\<lparr>ticks := 3, calls := [minio1]\<rparr>) \<and>
   probes (s3_world\<lparr>ticks := 3, calls := [minio1]\<rparr>) = probes s3_world"
proof -
  have a: "execute_loop 1000 get_object minio2 degraded_minio (invalid_world\<lparr>ticks := 10\<rparr>) =
     Some (Inl (InvalidResponseError ''400''), degraded_minio,
       invalid_world\<lparr>ticks := 11, calls := [minio2]\<rparr>)"
    using application_error_propagates [where s = degraded_minio
        and w = "invalid_world\<lparr>ticks := 10\<rparr>" and start_try_ts = 1000 and c = minio2
        and cmd = get_object and out = "Raises_InvalidResponseError ''400''"
        and ?w2.0 = "invalid_world\<lparr>ticks := 11, calls := [minio2]\<rparr>"
        and err = "InvalidResponseError ''400''"]
    by (simp add: now_def invoke_def)
  have g: "get_current_client test_minio (s3_world\<lparr>ticks := 1\<rparr>) =
     Some (Inr minio1, test_minio, s3_world\<lparr>ticks := 2\<rparr>)"
    by (simp add: get_current_client_def now_def current_client_def)
  have b: "execute_with_fallback get_object test_minio s3_world =
     Some (Inl (S3Error ''NoSuchKey''), test_minio, s3_world\<lparr>ticks := 3, calls := [minio1]\<rparr>)"
    using application_error_propagates [where s = test_minio and v = s3_world
        and c = minio1 and ?s1.0 = test_minio and ?v2.0 = "s3_world\<lparr>ticks := 2\<rparr>"
        and cmd = get_object and out = "Raises_S3Error ''NoSuchKey''"
        and ?v3.0 = "s3_world\<lparr>ticks := 3, calls := [minio1]\<rparr>"
        and err = "S3Error ''NoSuchKey''"] g
    by (simp add: now_def invoke_def)
  from a g b show ?thesis by simp
qed

text \<open>
  Claim C9 says that the exception raised when the retry loop runs out of time reports the
  total elapsed time. It reports \<^verbatim>\<open>self._max_try_timeout\<close>, a parameter of the
  constructor. In the run below that parameter is 7 and the timeout of the loop is 60; the
  first client fails, the second is found healthy, but 90 seconds have passed when the
  loop tests the time again, and the exception reports 7.
\<close>

theorem execute_failed_message_counterexample:
  "execute_with_fallback get_object (test_minio\<lparr>max_try_timeout := 7\<rparr>) slow_world =
     Some (Inl (MinioException (Failed_to_execute get_object 7)),
       test_minio\<lparr>max_try_timeout := 7, current_client_index := 1,
         last_health_check_ts := 1080, current_fail_ts := Some 1000,
         health_statuses := Some slow_statuses\<rparr>,
       slow_world\<lparr>ticks := 10, probes := [(minio1, 5), (minio2, 5)], calls := [minio1]\<rparr>) \<and>
   clock slow_world 9 - clock slow_world 0 = 90"
  by (simp add: execute_with_fallback_def get_current_client_def execute_loop.simps
      get_next_client_loop.simps eval_defs invoke_def mark_failure_def slow_statuses_def)

text \<open>
  Claim C9, amended. When the retry loop finds that \<^verbatim>\<open>fallback_timeout\<close> has been
  reached, the wrapper raises a \<^verbatim>\<open>MinioException\<close> that carries the method's name and
  arguments of the call and the configured \<^verbatim>\<open>max_try_timeout\<close>; whenever the wrapper
  raises that exception, it is for the call made, with that parameter, and the last reading
  of the clock was at least \<^verbatim>\<open>fallback_timeout\<close> after the start of the call.
\<close>

theorem execute_failed_message:
  fixes s :: "('c, 'v) MultiMinio"
  shows
  "(\<not> fst (now w) - start_try_ts < fallback_timeout s \<longrightarrow>
      execute_loop start_try_ts cmd c s w =
        Some (Inl (MinioException (Failed_to_execute cmd (max_try_timeout s))), s, snd (now w))) \<and>
   (execute_with_fallback cmd s v =
      Some (Inl (MinioException (Failed_to_execute cmd' x)), s', v') \<longrightarrow>
      cmd' = cmd \<and> x = max_try_timeout s \<and>
      \<not> clock v (ticks v' - 1) - fst (now v) < fallback_timeout s)"
proof (intro conjI impI)
  assume "\<not> fst (now w) - start_try_ts < fallback_timeout s"
  then show "execute_loop start_try_ts cmd c s w =
        Some (Inl (MinioException (Failed_to_execute cmd (max_try_timeout s))), s, snd (now w))"
    by (rule exec_exit)
next
  assume a: "execute_with_fallback cmd s v =
      Some (Inl (MinioException (Failed_to_execute cmd' x)), s', v')"
  then obtain r s1 v2 where g: "get_current_client s (snd (now v)) = Some (r, s1, v2)"
    by (cases "get_current_client s (snd (now v))") (auto simp: execute_with_fallback_def now_eq)
  have "cmd' = cmd \<and> x = max_try_timeout s \<and>
      \<not> clock v (ticks v' - 1) - fst (now v) < fallback_timeout s"
  proof (cases r)
    case (Inl e)
    with a g get_current_client_errors [of s "snd (now v)" e s1 v2] show ?thesis
      by (auto simp: execute_with_fallback_def now_eq)
  next
    case (Inr current)
    with a g have l: "execute_loop (fst (now v)) cmd current s1 v2 =
        Some (Inl (MinioException (Failed_to_execute cmd' x)), s', v')"
      by (simp add: execute_with_fallback_def now_eq)
    from exec_failed_message [OF l, of cmd' x] get_current_client_frame [OF g]
    show ?thesis by (simp add: same_config_def now_eq)
  qed
  then show "cmd' = cmd" "x = max_try_timeout s"
    "\<not> clock v (ticks v' - 1) - fst (now v) < fallback_timeout s" by simp_all
qed

theorem execute_failed_message_witness:
  "execute_loop 1000 get_object minio2 degraded_minio (slow_world\<lparr>ticks := 9\<rparr>) =
     Some (Inl (MinioException (Failed_to_execute get_object 60)), degraded_minio,
       slow_world\<lparr>ticks := 10\<rparr>) \<and>
   execute_with_fallback get_object (test_minio\<lparr>max_try_timeout := 7\<rparr>) slow_world =
     Some (Inl (MinioException (Failed_to_execute get_object 7)),
       test_minio\<lparr>max_try_timeout := 7, current_client_index := 1,
         last_health_check_ts := 1080, current_fail_ts := Some 1000,
         health_statuses := Some slow_statuses\<rparr>,
       slow_world\<lparr>ticks := 10, probes := [(minio1, 5), (minio2, 5)], calls := [minio1]\<rparr>) \<and>
   max_try_timeout (test_minio\<lparr>max_try_timeout := 7\<rparr>) = 7 \<and>
   \<not> clock slow_world 9 - clock slow_world 0 < fallback_timeout test_minio"
proof -
  let ?s = "test_minio\<lparr>max_try_timeout := 7\<rparr>"
  let ?s' = "test_minio\<lparr>max_try_timeout := 7, current_client_index := 1,
         last_health_check_ts := 1080, current_fail_ts := Some 1000,
         health_statuses := Some slow_statuses\<rparr>"
  let ?w' = "slow_world\<lparr>ticks := 10, probes := [(minio1, 5), (minio2, 5)], calls := [minio1]\<rparr>"
  have a: "execute_loop 1000 get_object minio2 degraded_minio (slow_world\<lparr>ticks := 9\<rparr>) =
     Some (Inl (MinioException (Failed_to_execute get_object 60)), degraded_minio,
       slow_world\<lparr>ticks := 10\<rparr>)"
    using execute_failed_message [where s = degraded_minio and w = "slow_world\<lparr>ticks := 9\<rparr>"
        and start_try_ts = 1000 and cmd = get_object and c = minio2]
    by (simp add: now_def)
  have run: "execute_with_fallback get_object ?s slow_world =
     Some (Inl (MinioException (Failed_to_execute get_object 7)), ?s', ?w')"
    by (simp add: execute_with_fallback_def get_current_client_def execute_loop.simps
        get_next_client_loop.simps eval_defs invoke_def mark_failure_def slow_statuses_def)
  have b: "max_try_timeout ?s = 7"
    "\<not> clock slow_world 9 - clock slow_world 0 < fallback_timeout test_minio"
    using execute_failed_message [where s = ?s and v = slow_world and cmd = get_object
        and cmd' = get_object and x = 7 and s' = ?s' and v' = ?w'] run
    by (simp_all add: now_def)
  from a run b show ?thesis by simp
qed

text \<open>
  Claim C1. Take a wrapped call made while the current index is 0. Suppose the call on
  client 0 raises an exception that is neither an \<^verbatim>\<open>S3Error\<close> nor an
  \<^verbatim>\<open>InvalidResponseError\<close>, the statuses that the search then retrieves have their first
  200 at index 1, and the retry on client 1 is made before \<^verbatim>\<open>fallback_timeout\<close> has
  elapsed and returns. Then the wrapper returns the result of client 1, no start of
  failures is recorded any more and the current index is 1; and every later call of
  \<^verbatim>\<open>_get_current_client\<close> made while the heartbeat has not expired returns client 1 and
  changes nothing.
\<close>

theorem failover_to_second_client:
  assumes "aligned s" and "current_client_index s = 0"
    and "now w = (t0, w1)" and "now w1 = (t1, w2)"
    and "now w2 = (t2, w3)" and "t2 - t0 < fallback_timeout s"
    and "invoke (clients s ! 0) cmd w3 = (Raises_Exception e, w4)"
    and "start_ts_of (mark_failure t0 s) w4 = (start_ts, w5)"
    and "retrieve_clients_health (mark_failure t0 s) w5 = (Inr hs, s1, w6)"
    and "1 < length hs" and "status_code (hs ! 0) \<noteq> Code 200"
    and "status_code (hs ! 1) = Code 200"
    and "now w6 = (t3, w7)" and "t3 - t0 < fallback_timeout s"
    and "invoke (clients s ! 1) cmd w7 = (Returns result, w8)"
  shows "execute_with_fallback cmd s w =
      Some (Inr result, s1\<lparr>current_client_index := 1, current_fail_ts := None\<rparr>, w8) \<and>
    (\<forall>v. fst (now v) - last_health_check_ts s1 \<le> health_check_heartbeat s \<longrightarrow>
       get_current_client (s1\<lparr>current_client_index := 1, current_fail_ts := None\<rparr>) v =
         Some (Inr (clients s ! 1), s1\<lparr>current_client_index := 1, current_fail_ts := None\<rparr>,
               snd (now v)))"
proof -
  let ?m = "mark_failure t0 s"
  let ?s2 = "s1\<lparr>current_client_index := 1\<rparr>"
  from retrieve_frame [OF assms(9)] have cfg: "same_config s s1"
    using same_config_trans [OF mark_failure_config] by blast
  then have cl: "clients s1 = clients s" and ft: "fallback_timeout s1 = fallback_timeout s"
    and hb: "health_check_heartbeat s1 = health_check_heartbeat s"
    by (simp_all add: same_config_def)
  have "aligned ?m" using assms(1) by (simp add: aligned_def mark_failure_def split: option.splits)
  from retrieve_aligned [OF assms(9) this] retrieve_Inr [OF assms(9)]
  have len: "length hs = length (clients s)" by (simp add: aligned_def cl)
  have fh: "first_healthy hs = Some 1"
    using assms(10-12) by (intro first_healthy_least) simp_all
  have cc: "current_client ?s2 = Inr (clients s ! 1)"
    using assms(10) len by (simp add: current_client_def cl)
  have search: "get_next_client ?m w4 = Some (Inr (clients s ! 1), ?s2, w6)"
    using loop_found [OF assms(9) fh, of start_ts] assms(8) cc
    by (simp add: get_next_client_def)
  have first: "get_current_client s w1 = Some (Inr (clients s ! 0), s, w2)"
    using assms(2,4,10) len by (auto simp: get_current_client_def current_client_def)
  have c1: "fst (now w2) - t0 < fallback_timeout s" "snd (now w2) = w3"
    using assms(5,6) by simp_all
  have c2: "fst (now w6) - t0 < fallback_timeout ?s2" "snd (now w6) = w7"
    using assms(13,14) ft by simp_all
  have "execute_loop t0 cmd (clients s ! 0) s w2 = execute_loop t0 cmd (clients s ! 1) ?s2 w6"
    using exec_fallback [OF c1(1), of "clients s ! 0" cmd e w4 "clients s ! 1" ?s2 w6]
      assms(7) search c1(2) by simp
  also have "\<dots> = Some (Inr result, ?s2\<lparr>current_fail_ts := None\<rparr>, w8)"
    using exec_returns [OF c2(1), of "clients s ! 1" cmd result w8] assms(15) c2(2) by simp
  finally have run: "execute_with_fallback cmd s w =
      Some (Inr result, s1\<lparr>current_client_index := 1, current_fail_ts := None\<rparr>, w8)"
    using assms(3) first by (simp add: execute_with_fallback_def)
  have later: "\<forall>v. fst (now v) - last_health_check_ts s1 \<le> health_check_heartbeat s \<longrightarrow>
       get_current_client (s1\<lparr>current_client_index := 1, current_fail_ts := None\<rparr>) v =
         Some (Inr (clients s ! 1), s1\<lparr>current_client_index := 1, current_fail_ts := None\<rparr>,
               snd (now v))"
    using assms(10) len by (simp add: get_current_client_def current_client_def cl hb now_eq)
  from run later show ?thesis by blast
qed

theorem failover_to_second_client_witness:
  "aligned test_minio \<and> current_client_index test_minio = 0 \<and>
   now (test_world\<lparr>ticks := 2\<rparr>) = (1002, test_world\<lparr>ticks := 3\<rparr>) \<and>
   1002 - 1000 < fallback_timeout test_minio \<and>
   invoke (clients test_minio ! 0) get_object (test_world\<lparr>ticks := 3\<rparr>) =
     (Raises_Exception ''Client 1 failed initially'', test_world\<lparr>ticks := 3, calls := [minio1]\<rparr>) \<and>
   retrieve_clients_health (mark_failure 1000 test_minio) (test_world\<lparr>ticks := 3, calls := [minio1]\<rparr>) =
     (Inr test_statuses,
      test_minio\<lparr>last_health_check_ts := 1008, current_fail_ts := Some 1000,
        health_statuses := Some test_statuses\<rparr>,
      test_world\<lparr>ticks := 9, probes := [(minio1, 5), (minio2, 5)], calls := [minio1]\<rparr>) \<and>
   status_code (test_statuses ! 0) \<noteq> Code 200 \<and> status_code (test_statuses ! 1) = Code 200 \<and>
   1009 - 1000 < fallback_timeout test_minio \<and>
   invoke (clients test_minio ! 1) get_object
     (test_world\<lparr>ticks := 10, probes := [(minio1, 5), (minio2, 5)], calls := [minio1]\<rparr>) =
     (Returns ''test result'',
      test_world\<lparr>ticks := 10, probes := [(minio1, 5), (minio2, 5)], calls := [minio1, minio2]\<rparr>) \<and>
   execute_with_fallback get_object test_minio test_world =
     Some (Inr ''test result'', degraded_minio,
       test_world\<lparr>ticks := 10, probes := [(minio1, 5), (minio2, 5)], calls := [minio1, minio2]\<rparr>) \<and>
   current_client_index degraded_minio = 1 \<and> current_fail_ts degraded_minio = None \<and>
   get_current_client degraded_minio
     (test_world\<lparr>ticks := 10, probes := [(minio1, 5), (minio2, 5)], calls := [minio1, minio2]\<rparr>) =
     Some (Inr minio2, degraded_minio,
       test_world\<lparr>ticks := 11, probes := [(minio1, 5), (minio2, 5)], calls := [minio1, minio2]\<rparr>)"
proof -
  let ?w4 = "test_world\<lparr>ticks := 3, calls := [minio1]\<rparr>"
  let ?s1 = "test_minio\<lparr>last_health_check_ts := 1008, current_fail_ts := Some 1000,
        health_statuses := Some test_statuses\<rparr>"
  let ?w6 = "test_world\<lparr>ticks := 9, probes := [(minio1, 5), (minio2, 5)], calls := [minio1]\<rparr>"
  let ?w7 = "test_world\<lparr>ticks := 10, probes := [(minio1, 5), (minio2, 5)], calls := [minio1]\<rparr>"
  let ?w8 = "test_world\<lparr>ticks := 10, probes := [(minio1, 5), (minio2, 5)], calls := [minio1, minio2]\<rparr>"
  have h1: "aligned test_minio" by (simp add: aligned_def)
  have h2: "current_client_index test_minio = 0" by simp
  have h3: "now test_world = (1000, test_world\<lparr>ticks := 1\<rparr>)" by (simp add: now_def)
  have h4: "now (test_world\<lparr>ticks := 1\<rparr>) = (1001, test_world\<lparr>ticks := 2\<rparr>)"
    by (simp add: now_def)
  have h5: "now (test_world\<lparr>ticks := 2\<rparr>) = (1002, test_world\<lparr>ticks := 3\<rparr>)"
    by (simp add: now_def)
  have h6: "1002 - 1000 < fallback_timeout test_minio" by simp
  have h7: "invoke (clients test_minio ! 0) get_object (test_world\<lparr>ticks := 3\<rparr>) =
      (Raises_Exception ''Client 1 failed initially'', ?w4)"
    by (simp add: invoke_def)
  have h8: "start_ts_of (mark_failure 1000 test_minio) ?w4 = (1000, ?w4)"
    by (simp add: start_ts_of_def mark_failure_def)
  have h9: "retrieve_clients_health (mark_failure 1000 test_minio) ?w4 = (Inr test_statuses, ?s1, ?w6)"
    by (simp add: eval_defs mark_failure_def test_statuses_def eval_nat_numeral)
  have h10: "1 < length test_statuses" by (simp add: test_statuses_def)
  have h11: "status_code (test_statuses ! 0) \<noteq> Code 200" by (simp add: test_statuses_def)
  have h12: "status_code (test_statuses ! 1) = Code 200" by (simp add: test_statuses_def)
  have h13: "now ?w6 = (1009, ?w7)" by (simp add: now_def)
  have h14: "1009 - 1000 < fallback_timeout test_minio" by simp
  have h15: "invoke (clients test_minio ! 1) get_object ?w7 = (Returns ''test result'', ?w8)"
    by (simp add: invoke_def)
  have eq: "?s1\<lparr>current_client_index := 1, current_fail_ts := None\<rparr> = degraded_minio"
    by (simp add: degraded_minio_def)
  note r = failover_to_second_client [OF h1 h2 h3 h4 h5 h6 h7 h8 h9 h10 h11 h12 h13 h14 h15]
  from r have run: "execute_with_fallback get_object test_minio test_world =
      Some (Inr ''test result'', degraded_minio, ?w8)"
    unfolding eq by simp
  from r have "\<forall>v. fst (now v) - last_health_check_ts ?s1 \<le> health_check_heartbeat test_minio \<longrightarrow>
       get_current_client degraded_minio v =
         Some (Inr (clients test_minio ! 1), degraded_minio, snd (now v))"
    unfolding eq by blast
  from this [rule_format, of ?w8]
  have next_call: "get_current_client degraded_minio ?w8 =
     Some (Inr minio2, degraded_minio,
       test_world\<lparr>ticks := 11, probes := [(minio1, 5), (minio2, 5)], calls := [minio1, minio2]\<rparr>)"
    by (simp add: now_def)
  from h1 h5 h6 h7 h9 h11 h12 h14 h15 run next_call show ?thesis by simp
qed

end
